theory Spec2Isabelle
  imports Main "HOL-Library.Word"
begin

unbundle bit_operations_syntax

section \<open>Native path strings\<close>

text \<open>
  \<^verbatim>\<open>fs.cpp\<close> is compiled for one of two path grammars, selected by the macro
  \<^verbatim>\<open>LAMBDA_WINDOWS\<close>.  The embedding keeps both branches of every \<^verbatim>\<open>#ifdef\<close> of the
  lexical code and selects between them with a value of type \<open>grammar\<close>.  A path
  object holds the single member \<^verbatim>\<open>_path\<close>, its native string, so a path is modelled
  by that string; string iterators are modelled by their offset from \<^verbatim>\<open>_first\<close>.
\<close>

datatype grammar = Posix | Windows

text \<open>
  Modelled from the spec: the constant \<^verbatim>\<open>path::preferred_separator\<close> is declared in
  the header \<^verbatim>\<open>fs.h\<close>, which is not among the sources.  The spec's scenarios give the
  forward slash for the POSIX-style grammar and the backslash (code \<open>0x5C\<close>) for the
  Windows-style grammar.
\<close>

definition preferred_separator :: "grammar \<Rightarrow> char" where
  "preferred_separator g = (case g of Posix \<Rightarrow> CHR ''/'' | Windows \<Rightarrow> CHR 0x5C)"

text \<open>The C library's \<^verbatim>\<open>isprint\<close> and \<^verbatim>\<open>toupper\<close>, in the "C" locale.\<close>

definition isprint :: "char \<Rightarrow> bool" where
  "isprint c = (32 \<le> (of_char c :: nat) \<and> (of_char c :: nat) \<le> 126)"

definition toupper :: "char \<Rightarrow> char" where
  "toupper c = (if 97 \<le> (of_char c :: nat) \<and> (of_char c :: nat) \<le> 122
                then char_of ((of_char c :: nat) - 32) else c)"

text \<open>\<^verbatim>\<open>std::toupper(c) >= 'A' && std::toupper(c) <= 'Z'\<close>\<close>

definition drive_letter :: "char \<Rightarrow> bool" where
  "drive_letter c = (65 \<le> (of_char (toupper c) :: nat) \<and> (of_char (toupper c) :: nat) \<le> 90)"

text \<open>\<^verbatim>\<open>s.find_first_of(cs, i)\<close>: the first offset at or after \<open>i\<close> of a character of \<open>cs\<close>;
  \<open>None\<close> is \<^verbatim>\<open>npos\<close>.\<close>

definition find_first_of :: "string \<Rightarrow> string \<Rightarrow> nat \<Rightarrow> nat option" where
  "find_first_of s cs i =
     (let k = i + length (takeWhile (\<lambda>c. c \<notin> set cs) (drop i s))
      in if k < length s then Some k else None)"

text \<open>\<^verbatim>\<open>std::find(first + i, last, c)\<close>: the offset of the first \<open>c\<close> at or after \<open>i\<close>, or
  the length of the string.\<close>

definition find_from :: "string \<Rightarrow> char \<Rightarrow> nat \<Rightarrow> nat" where
  "find_from s c i = i + length (takeWhile (\<lambda>x. x \<noteq> c) (drop i s))"

text \<open>\<^verbatim>\<open>while (i != _last && *i == c) ++i;\<close>\<close>

definition skip_char :: "string \<Rightarrow> char \<Rightarrow> nat \<Rightarrow> nat" where
  "skip_char s c i = i + length (takeWhile (\<lambda>x. x = c) (drop i s))"

text \<open>\<^verbatim>\<open>std::find_if\<close> over the reversed range from offset \<open>i\<close> down to the start,
  followed by \<^verbatim>\<open>.base()\<close>: one past the last offset below \<open>i\<close> whose character
  satisfies \<open>P\<close>, or \<open>0\<close>.\<close>

primrec rfind_base :: "string \<Rightarrow> (char \<Rightarrow> bool) \<Rightarrow> nat \<Rightarrow> nat" where
  "rfind_base s P 0 = 0"
| "rfind_base s P (Suc k) = (if P (s ! k) then Suc k else rfind_base s P k)"

subsection \<open>Decomposition that does not use append\<close>

definition root_name :: "grammar \<Rightarrow> string \<Rightarrow> string" where
  "root_name g p =
     (if g = Windows \<and> length p \<ge> 2 \<and> drive_letter (p ! 0) \<and> p ! 1 = CHR '':''
      then take 2 p
      else if length p > 2 \<and> p ! 0 = CHR ''/'' \<and> p ! 1 = CHR ''/'' \<and> p ! 2 \<noteq> CHR ''/''
              \<and> isprint (p ! 2)
      then (case find_first_of p [CHR ''/'', CHR 0x5C] 3 of
              None \<Rightarrow> p
            | Some pos \<Rightarrow> take pos p)
      else [])"

definition root_directory :: "grammar \<Rightarrow> string \<Rightarrow> string" where
  "root_directory g p =
     (let root = root_name g p
      in if length p > length root \<and> p ! (length root) = preferred_separator g
         then [preferred_separator g]
         else [])"

definition has_root_name :: "grammar \<Rightarrow> string \<Rightarrow> bool" where
  "has_root_name g p = (root_name g p \<noteq> [])"

definition has_root_directory :: "grammar \<Rightarrow> string \<Rightarrow> bool" where
  "has_root_directory g p = (root_directory g p \<noteq> [])"

definition is_absolute :: "grammar \<Rightarrow> string \<Rightarrow> bool" where
  "is_absolute g p =
     (case g of
        Windows \<Rightarrow> has_root_name g p \<and> has_root_directory g p
      | Posix \<Rightarrow> has_root_directory g p)"

subsection \<open>The path iterator\<close>

text \<open>
  \<^verbatim>\<open>path::iterator\<close> holds \<^verbatim>\<open>_first\<close>, \<^verbatim>\<open>_last\<close>, \<^verbatim>\<open>_root\<close>, \<^verbatim>\<open>_pos\<close> and \<^verbatim>\<open>_current\<close>.
  \<open>it_str\<close> is the range from \<^verbatim>\<open>_first\<close> to \<^verbatim>\<open>_last\<close>.
\<close>

record path_iterator =
  it_str :: string
  it_root :: nat
  it_pos :: nat
  it_current :: string

text \<open>
  \<^verbatim>\<open>iterator::increment(pos)\<close> never reads its parameter: it starts from the member
  \<^verbatim>\<open>_pos\<close>.  The argument \<open>p\<close> below is that member.
\<close>

definition increment :: "grammar \<Rightarrow> string \<Rightarrow> nat \<Rightarrow> nat" where
  "increment g s p =
     (let sep = preferred_separator g; n = length s; from_start = (p = 0)
      in if p < n then
           (if s ! p = sep then
              (let i = p + 1
               in if i < n \<and> s ! i = sep then
                    (if from_start \<and> \<not> (i + 1 < n \<and> s ! (i + 1) = sep)
                     then find_from s sep (i + 1)
                     else skip_char s sep i)
                  else i)
            else
              (let i = p + 1
               in if from_start \<and> i < n \<and> s ! i = CHR '':'' then i + 1
                  else find_from s sep i))
         else p)"

text \<open>
  \<^verbatim>\<open>update_current\<close>.  The constructor calls it before \<^verbatim>\<open>_root\<close> is assigned, when
  \<^verbatim>\<open>_root\<close> is still the value-initialised (null) iterator, which differs from every
  position of the string: \<open>root = None\<close> stands for that state.
\<close>

definition update_current :: "grammar \<Rightarrow> string \<Rightarrow> nat option \<Rightarrow> nat \<Rightarrow> string" where
  "update_current g s root p =
     (let sep = preferred_separator g
      in if p \<noteq> 0 \<and> p < length s \<and> (s ! p = sep \<and> Some p \<noteq> root) \<and> p + 1 = length s
         then []
         else (let c = take (increment g s p - p) (drop p s)
               in if length c > 1 \<and> c ! 0 = sep \<and> c ! (length c - 1) = sep
                  then [sep] else c))"

definition iterator :: "grammar \<Rightarrow> string \<Rightarrow> nat \<Rightarrow> path_iterator" where
  "iterator g s pos =
     (let sep = preferred_separator g; n = length s;
          cur = update_current g s None pos;
          root =
            (if g = Windows \<and> n \<ge> 3 \<and> drive_letter (s ! 0) \<and> s ! 1 = CHR '':'' \<and> s ! 2 = sep
             then 2
             else if s \<noteq> [] \<and> s ! 0 = sep then
               (if n \<ge> 2 \<and> s ! 1 = sep \<and> \<not> (n \<ge> 3 \<and> s ! 2 = sep)
                then increment g s pos
                else 0)
             else n)
      in \<lparr>it_str = s, it_root = root, it_pos = pos, it_current = cur\<rparr>)"

definition path_begin :: "grammar \<Rightarrow> string \<Rightarrow> path_iterator" where
  "path_begin g p = iterator g p 0"

definition path_end :: "grammar \<Rightarrow> string \<Rightarrow> path_iterator" where
  "path_end g p = iterator g p (length p)"

text \<open>The loop of \<^verbatim>\<open>operator++\<close> that steps over redundant separators.\<close>

function skip_redundant :: "char \<Rightarrow> string \<Rightarrow> nat \<Rightarrow> nat \<Rightarrow> nat" where
  "skip_redundant sep s root p =
     (if p < length s \<and> p \<noteq> root \<and> s ! p = sep \<and> p + 1 \<noteq> length s
      then skip_redundant sep s root (p + 1)
      else p)"
  by pat_completeness auto
termination
  by (relation "measure (\<lambda>(sep, s, root, p). length s - p)") auto

declare skip_redundant.simps [simp del]

definition it_next :: "grammar \<Rightarrow> path_iterator \<Rightarrow> path_iterator" where
  "it_next g it =
     (let s = it_str it;
          p = skip_redundant (preferred_separator g) s (it_root it) (increment g s (it_pos it))
      in it\<lparr>it_pos := p, it_current := update_current g s (Some (it_root it)) p\<rparr>)"

definition decrement :: "grammar \<Rightarrow> string \<Rightarrow> nat \<Rightarrow> nat \<Rightarrow> nat" where
  "decrement g s root pos =
     (let sep = preferred_separator g
      in if pos \<noteq> 0 then
           (let i = pos - 1
            in if i \<noteq> root \<and> (pos \<noteq> length s \<or> s ! i \<noteq> sep) then
                 (let j = (case g of
                             Windows \<Rightarrow>
                               (let k = rfind_base s (\<lambda>c. c \<in> set [CHR 0x5C, CHR ''/'', CHR '':'']) i
                                in if k > 0 \<and> s ! k = CHR '':'' then k + 1 else k)
                           | Posix \<Rightarrow> rfind_base s (\<lambda>c. c = CHR ''/'') i)
                  in if j = 2 \<and> s ! 0 = sep \<and> s ! 1 = sep then j - 2 else j)
               else i)
         else pos)"

definition it_prev :: "grammar \<Rightarrow> path_iterator \<Rightarrow> path_iterator" where
  "it_prev g it =
     (let s = it_str it; p = decrement g s (it_root it) (it_pos it)
      in it\<lparr>it_pos := p, it_current := update_current g s (Some (it_root it)) p\<rparr>)"

subsection \<open>Termination of the iterator loops\<close>

lemma find_from_bounds: "i \<le> find_from s c i" "i \<le> length s \<Longrightarrow> find_from s c i \<le> length s"
proof -
  show "i \<le> find_from s c i" by (simp add: find_from_def)
  assume "i \<le> length s"
  moreover have "length (takeWhile (\<lambda>x. x \<noteq> c) (drop i s)) \<le> length (drop i s)"
    by (rule length_takeWhile_le)
  ultimately show "find_from s c i \<le> length s" by (simp add: find_from_def)
qed

lemma skip_char_bounds: "i \<le> skip_char s c i" "i \<le> length s \<Longrightarrow> skip_char s c i \<le> length s"
proof -
  show "i \<le> skip_char s c i" by (simp add: skip_char_def)
  assume "i \<le> length s"
  moreover have "length (takeWhile (\<lambda>x. x = c) (drop i s)) \<le> length (drop i s)"
    by (rule length_takeWhile_le)
  ultimately show "skip_char s c i \<le> length s" by (simp add: skip_char_def)
qed

lemma increment_gt: "p < length s \<Longrightarrow> p < increment g s p"
  using find_from_bounds(1)[of "Suc (Suc p)" s "preferred_separator g"]
        find_from_bounds(1)[of "Suc p" s "preferred_separator g"]
        skip_char_bounds(1)[of "Suc p" s "preferred_separator g"]
  by (auto simp: increment_def Let_def)

lemma increment_le: "p \<le> length s \<Longrightarrow> increment g s p \<le> length s"
  using find_from_bounds(2)[of "Suc (Suc p)" s "preferred_separator g"]
        find_from_bounds(2)[of "Suc p" s "preferred_separator g"]
        skip_char_bounds(2)[of "Suc p" s "preferred_separator g"]
  by (auto simp: increment_def Let_def)

lemma skip_redundant_ge: "p \<le> skip_redundant sep s root p"
proof (induction sep s root p rule: skip_redundant.induct)
  case (1 sep s root p)
  show ?case
  proof (cases "p < length s \<and> p \<noteq> root \<and> s ! p = sep \<and> p + 1 \<noteq> length s")
    case True
    have "skip_redundant sep s root p = skip_redundant sep s root (p + 1)"
      using True by (subst skip_redundant.simps) auto
    with 1[OF True] show ?thesis by simp
  next
    case False
    have "skip_redundant sep s root p = p"
      using False by (subst skip_redundant.simps) auto
    then show ?thesis by simp
  qed
qed

lemma skip_redundant_le: "p \<le> length s \<Longrightarrow> skip_redundant sep s root p \<le> length s"
proof (induction sep s root p rule: skip_redundant.induct)
  case (1 sep s root p)
  show ?case
  proof (cases "p < length s \<and> p \<noteq> root \<and> s ! p = sep \<and> p + 1 \<noteq> length s")
    case True
    have "skip_redundant sep s root p = skip_redundant sep s root (p + 1)"
      using True by (subst skip_redundant.simps) auto
    with 1(1)[OF True] True show ?thesis by simp
  next
    case False
    have "skip_redundant sep s root p = p"
      using False by (subst skip_redundant.simps) auto
    with 1(2) show ?thesis by simp
  qed
qed

lemma it_next_str: "it_str (it_next g it) = it_str it"
  by (simp add: it_next_def Let_def)

lemma it_next_pos_gt: "it_pos it < length (it_str it) \<Longrightarrow> it_pos it < it_pos (it_next g it)"
  using increment_gt[of "it_pos it" "it_str it" g] skip_redundant_ge[of "increment g (it_str it) (it_pos it)"]
  by (simp add: it_next_def Let_def) (meson less_le_trans)

subsection \<open>Append and the decomposition built on it\<close>

text \<open>
  The loop at the end of \<^verbatim>\<open>path::append\<close>:
  \<^verbatim>\<open>while (iter != path.end()) { ...; _path += (*iter++).native(); }\<close>.
  Iterators compare by \<^verbatim>\<open>_pos\<close> alone, and the end iterator sits at \<^verbatim>\<open>_last\<close>.
\<close>

function append_loop :: "grammar \<Rightarrow> path_iterator \<Rightarrow> bool \<Rightarrow> string \<Rightarrow> string" where
  "append_loop g iter first acc =
     (if it_pos iter < length (it_str iter) then
        (let acc1 = (if \<not> first \<and> \<not> (acc \<noteq> [] \<and> last acc = preferred_separator g)
                     then acc @ [preferred_separator g] else acc)
         in append_loop g (it_next g iter) False (acc1 @ it_current iter))
      else acc)"
  by pat_completeness auto
termination
proof (relation "measure (\<lambda>(g, iter, first, acc). length (it_str iter) - it_pos iter)")
  show "wf (measure (\<lambda>(g, iter, first, acc). length (it_str iter) - it_pos iter))"
    by (rule wf_measure)
next
  fix g :: grammar and iter :: path_iterator and first :: bool and acc acc1 :: string
  assume "it_pos iter < length (it_str iter)"
  then have "it_pos iter < it_pos (it_next g iter)"
    by (rule it_next_pos_gt)
  with \<open>it_pos iter < length (it_str iter)\<close>
  show "((g, it_next g iter, False, acc1 @ it_current iter), g, iter, first, acc)
          \<in> measure (\<lambda>(g, iter, first, acc). length (it_str iter) - it_pos iter)"
    by (simp add: it_next_str diff_less_mono2)
qed

declare append_loop.simps [simp del]

text \<open>
  \<^verbatim>\<open>root_path()\<close> is \<^verbatim>\<open>root_name() / root_directory()\<close>, and \<^verbatim>\<open>append\<close> asks
  \<^verbatim>\<open>has_filename()\<close>, which goes through \<^verbatim>\<open>get_filename()\<close>, \<^verbatim>\<open>has_relative_path()\<close>
  and \<^verbatim>\<open>relative_path()\<close> back to \<^verbatim>\<open>root_path()\<close>: the six functions are mutually
  recursive, as in the source.  The recursion ends because \<^verbatim>\<open>root_path()\<close> appends a
  root directory, for which \<^verbatim>\<open>append\<close> never asks \<^verbatim>\<open>has_filename()\<close>.
\<close>

lemma root_directory_cases:
  "root_directory g p = [] \<or> has_root_directory g (root_directory g p)"
  by (cases g) (simp_all add: root_directory_def has_root_directory_def root_name_def
      preferred_separator_def Let_def)

function path_append :: "grammar \<Rightarrow> string \<Rightarrow> string \<Rightarrow> string"
  and root_path :: "grammar \<Rightarrow> string \<Rightarrow> string"
  and relative_path :: "grammar \<Rightarrow> string \<Rightarrow> string"
  and has_relative_path :: "grammar \<Rightarrow> string \<Rightarrow> bool"
  and get_filename :: "grammar \<Rightarrow> string \<Rightarrow> string"
  and has_filename :: "grammar \<Rightarrow> string \<Rightarrow> bool"
where
  "path_append g this other =
     (let sep = preferred_separator g
      in if other = [] then
           (if this \<noteq> [] \<and> last this \<noteq> sep \<and> last this \<noteq> CHR '':''
            then this @ [sep] else this)
         else if is_absolute g other \<and>
                 ((this \<noteq> root_name g this \<or> other \<noteq> [sep]) \<or>
                  (has_root_name g other \<and> root_name g other \<noteq> root_name g this))
         then other
         else
           (let this1 =
                  (if has_root_directory g other then root_name g this
                   else if (\<not> has_root_directory g this \<and> is_absolute g this) \<or> has_filename g this
                   then this @ [sep] else this);
                iter = path_begin g other;
                iter1 = (if has_root_name g other then it_next g iter else iter)
            in append_loop g iter1 True this1))"
| "root_path g p = path_append g (root_name g p) (root_directory g p)"
| "relative_path g p = drop (min (length (root_path g p)) (length p)) p"
| "has_relative_path g p = (relative_path g p \<noteq> [])"
| "get_filename g p =
     (if \<not> has_relative_path g p then [] else it_current (it_prev g (path_end g p)))"
| "has_filename g p = (get_filename g p \<noteq> [])"
  by pat_completeness auto
termination
proof (relation "measure
    (case_sum
       (case_sum (\<lambda>(g, this, other). if other = [] \<or> has_root_directory g other then 0 else 6)
                 (case_sum (\<lambda>_. 1) (\<lambda>_. 2)))
       (case_sum (\<lambda>_. 3) (case_sum (\<lambda>_. 4) (\<lambda>_. 5))))", goal_cases)
  case (3 g p)
  then show ?case using root_directory_cases[of g p] by auto
qed simp_all

declare path_append.simps [simp del] root_path.simps [simp del] relative_path.simps [simp del]
  has_relative_path.simps [simp del] get_filename.simps [simp del] has_filename.simps [simp del]

subsection \<open>Iterating over a path\<close>

text \<open>
  The components a path yields when it is iterated from \<^verbatim>\<open>begin()\<close> to \<^verbatim>\<open>end()\<close>, as
  in \<^verbatim>\<open>for (auto it = p.begin(); it != p.end(); ++it)\<close>: the value of \<^verbatim>\<open>*it\<close> at every
  position before the end.
\<close>

function elements_from :: "grammar \<Rightarrow> path_iterator \<Rightarrow> string list" where
  "elements_from g iter =
     (if it_pos iter < length (it_str iter)
      then it_current iter # elements_from g (it_next g iter)
      else [])"
  by pat_completeness auto
termination
proof (relation "measure (\<lambda>(g, iter). length (it_str iter) - it_pos iter)", goal_cases)
  case 1
  show ?case by (rule wf_measure)
next
  case (2 g iter)
  then show ?case
    using it_next_pos_gt[of iter g] by (simp add: it_next_str diff_less_mono2)
qed

declare elements_from.simps [simp del]

definition elements :: "grammar \<Rightarrow> string \<Rightarrow> string list" where
  "elements g p = elements_from g (path_begin g p)"

section \<open>The operating system\<close>

text \<open>
  The functions below embed the branch of \<^verbatim>\<open>fs.cpp\<close> that is compiled without
  \<^verbatim>\<open>LAMBDA_WINDOWS\<close>; their path arithmetic is that of the POSIX-style grammar.  The
  system calls are not part of the repository: they are taken as a parameter, a record
  of functions over an arbitrary state \<open>'s\<close> of the file system.  A call that fails
  returns \<open>Inl\<close> of the value it leaves in \<^verbatim>\<open>errno\<close>; a call that changes the file
  system returns the new state.

  \<^item> \<open>sys_readlink\<close> gives the whole text stored in the link; \<^verbatim>\<open>readlink(2)\<close> copies
    at most the buffer's size of it and returns the number of bytes copied.
  \<^item> \<open>sys_opendir\<close> gives the stream of results that successive \<^verbatim>\<open>readdir\<close> calls
    deliver (a name, or a failure with its \<^verbatim>\<open>errno\<close>); the stream is finite, and its end
    is the null result that leaves \<^verbatim>\<open>errno\<close> at zero.
\<close>

type_synonym error_code = int

definition ENOENT :: int where "ENOENT = 2"
definition EACCES :: int where "EACCES = 13"
definition EEXIST :: int where "EEXIST = 17"
definition ENOTEMPTY :: int where "ENOTEMPTY = 39"

text \<open>\<^verbatim>\<open>#define ERROR_INVALID_PARAMETER EINVAL\<close>\<close>

definition ERROR_INVALID_PARAMETER :: int where "ERROR_INVALID_PARAMETER = 22"

record stat_t =
  st_dev :: nat
  st_ino :: nat
  st_mode :: "32 word"
  st_nlink :: nat
  st_size :: int
  st_mtime :: int

record 's os =
  sys_lstat :: "'s \<Rightarrow> string \<Rightarrow> int + stat_t"
  sys_stat :: "'s \<Rightarrow> string \<Rightarrow> int + stat_t"
  sys_readlink :: "'s \<Rightarrow> string \<Rightarrow> int + string"
  sys_opendir :: "'s \<Rightarrow> string \<Rightarrow> int + (int + string) list"
  sys_remove :: "'s \<Rightarrow> string \<Rightarrow> int + 's"
  sys_mkdir :: "'s \<Rightarrow> string \<Rightarrow> 32 word \<Rightarrow> int + 's"
  sys_chmod :: "'s \<Rightarrow> string \<Rightarrow> 32 word \<Rightarrow> int + 's"

subsection \<open>File status\<close>

datatype file_type =
  not_found | unknown | none | regular | directory | symlink | character | block | fifo | socket

type_synonym perms = "16 word"

text \<open>
  Modelled from the spec: \<^verbatim>\<open>perms::unknown\<close>, \<^verbatim>\<open>perms::all\<close> and the constructor of
  \<^verbatim>\<open>file_status\<close> are declared in the header \<^verbatim>\<open>fs.h\<close>, which is not among the sources.
  A status built from a type alone carries the unknown permissions.
\<close>

definition perms_unknown :: perms where "perms_unknown = 0xFFFF"

definition perms_all :: perms where "perms_all = 0x1FF"

record file_status =
  fs_type :: file_type
  fs_prms :: perms

definition is_directory :: "file_status \<Rightarrow> bool" where
  "is_directory fs = (fs_type fs = directory)"

text \<open>The macros \<^verbatim>\<open>S_ISDIR\<close>, \<^verbatim>\<open>S_ISREG\<close>, ... of \<^verbatim>\<open>sys/stat.h\<close>.\<close>

definition S_IFMT :: "32 word" where "S_IFMT = 0xF000"
definition S_IFDIR :: "32 word" where "S_IFDIR = 0x4000"
definition S_IFREG :: "32 word" where "S_IFREG = 0x8000"
definition S_IFCHR :: "32 word" where "S_IFCHR = 0x2000"
definition S_IFBLK :: "32 word" where "S_IFBLK = 0x6000"
definition S_IFIFO :: "32 word" where "S_IFIFO = 0x1000"
definition S_IFLNK :: "32 word" where "S_IFLNK = 0xA000"
definition S_IFSOCK :: "32 word" where "S_IFSOCK = 0xC000"

definition file_status_from_st_mode :: "32 word \<Rightarrow> file_status" where
  "file_status_from_st_mode mode =
     (let ft = (if mode AND S_IFMT = S_IFDIR then directory
                else if mode AND S_IFMT = S_IFREG then regular
                else if mode AND S_IFMT = S_IFCHR then character
                else if mode AND S_IFMT = S_IFBLK then block
                else if mode AND S_IFMT = S_IFIFO then fifo
                else if mode AND S_IFMT = S_IFLNK then symlink
                else if mode AND S_IFMT = S_IFSOCK then socket
                else unknown)
      in \<lparr>fs_type = ft, fs_prms = ucast (mode AND 0xFFF)\<rparr>)"

text \<open>
  \<^verbatim>\<open>internal_status\<close> returns the status and the error code it leaves; the third
  component is the \<^verbatim>\<open>stat\<close> buffer from which the link count and the modification time
  are read when the caller asks for them.  When the second \<^verbatim>\<open>stat\<close> fails the buffer is
  taken to keep what \<^verbatim>\<open>lstat\<close> wrote.
\<close>

definition internal_status :: "'s os \<Rightarrow> 's \<Rightarrow> string \<Rightarrow> file_status \<times> error_code \<times> stat_t option" where
  "internal_status os s p =
     (case sys_lstat os s p of
        Inr st \<Rightarrow>
          (let fs = file_status_from_st_mode (st_mode st)
           in if fs_type fs = symlink then
                (case sys_stat os s p of
                   Inr st' \<Rightarrow> (file_status_from_st_mode (st_mode st'), 0, Some st')
                 | Inl e \<Rightarrow> (fs, 0, Some st))
              else (fs, 0, Some st))
      | Inl e \<Rightarrow>
          if e = ENOENT then (\<lparr>fs_type = not_found, fs_prms = perms_unknown\<rparr>, e, None)
          else (\<lparr>fs_type = none, fs_prms = perms_unknown\<rparr>, e, None))"

definition status :: "'s os \<Rightarrow> 's \<Rightarrow> string \<Rightarrow> file_status \<times> error_code" where
  "status os s p = (case internal_status os s p of (fs, ec, st) \<Rightarrow> (fs, ec))"

definition symlink_status :: "'s os \<Rightarrow> 's \<Rightarrow> string \<Rightarrow> file_status \<times> error_code" where
  "symlink_status os s p =
     (case sys_stat os s p of
        Inr st \<Rightarrow> (file_status_from_st_mode (st_mode st), 0)
      | Inl e \<Rightarrow>
          if e = ENOENT then (\<lparr>fs_type = not_found, fs_prms = perms_unknown\<rparr>, e)
          else (\<lparr>fs_type = none, fs_prms = perms_unknown\<rparr>, e))"

definition get_file_type :: "'s os \<Rightarrow> 's \<Rightarrow> string \<Rightarrow> file_type \<times> error_code" where
  "get_file_type os s p = (case status os s p of (fs, ec) \<Rightarrow> (fs_type fs, ec))"

definition exists :: "'s os \<Rightarrow> 's \<Rightarrow> string \<Rightarrow> bool" where
  "exists os s p = (case sys_stat os s p of Inr st \<Rightarrow> True | Inl e \<Rightarrow> False)"

subsection \<open>Size and time\<close>

text \<open>\<^verbatim>\<open>uintmax_t\<close> is a 64-bit word; \<^verbatim>\<open>static_cast<uintmax_t>(-1)\<close> is \<open>- 1\<close>.\<close>

type_synonym uintmax_t = "64 word"

definition file_size :: "'s os \<Rightarrow> 's \<Rightarrow> string \<Rightarrow> uintmax_t \<times> error_code" where
  "file_size os s p =
     (case sys_stat os s p of
        Inl e \<Rightarrow> (- 1, e)
      | Inr st \<Rightarrow> (word_of_int (st_size st), 0))"

text \<open>
  A \<^verbatim>\<open>file_time_type\<close> is modelled by its count of clock ticks.  The library's
  \<^verbatim>\<open>file_time_type::min()\<close> and \<^verbatim>\<open>system_clock::from_time_t\<close> are taken as those of a
  clock with 64-bit nanosecond ticks: \<^verbatim>\<open>from_time_t\<close> multiplies the 64-bit \<^verbatim>\<open>time_t\<close> by
  \<open>10 ^ 9\<close> in the signed 64-bit tick count, where the product wraps around.
\<close>

definition file_time_min :: int where "file_time_min = - (2 ^ 63)"

definition from_time_t :: "int \<Rightarrow> int" where
  "from_time_t t = sint (word_of_int t * 1000000000 :: 64 word)"

definition last_write_time :: "'s os \<Rightarrow> 's \<Rightarrow> string \<Rightarrow> int \<times> error_code" where
  "last_write_time os s p =
     (case internal_status os s p of
        (fs, ec, st) \<Rightarrow>
          (let result = (case st of None \<Rightarrow> 0 | Some b \<Rightarrow> st_mtime b)
           in (if ec \<noteq> 0 then file_time_min else from_time_t result, ec)))"

subsection \<open>Permissions\<close>

text \<open>
  The enumerators of \<^verbatim>\<open>perm_options\<close> are declared in the header \<^verbatim>\<open>fs.h\<close>, which is not
  among the sources: their values are a parameter of \<^verbatim>\<open>permissions\<close>.
\<close>

type_synonym perm_options = "16 word"

record perm_option_values =
  po_replace :: perm_options
  po_add :: perm_options
  po_remove :: perm_options
  po_nofollow :: perm_options

text \<open>
  \<^verbatim>\<open>permissions(prms, opts, ec)\<close> returns the error code it leaves and the new state.
  It does not read the code it is given: every path assigns it, through
  \<^verbatim>\<open>symlink_status(ec)\<close> at the latest.
\<close>

definition permissions ::
  "perm_option_values \<Rightarrow> 's os \<Rightarrow> 's \<Rightarrow> string \<Rightarrow> perms \<Rightarrow> perm_options \<Rightarrow> error_code \<times> 's" where
  "permissions po os s p prms opts =
     (if opts AND (po_replace po OR po_add po OR po_remove po) = 0
      then (ERROR_INVALID_PARAMETER, s)
      else
        (case symlink_status os s p of
           (fs, ec) \<Rightarrow>
             (let prms1 =
                    (if opts AND po_replace po \<noteq> po_replace po then
                       (if opts AND po_add po = po_add po then fs_prms fs OR prms
                        else fs_prms fs AND NOT prms)
                     else prms)
              in if opts AND po_nofollow po \<noteq> po_nofollow po then
                   (case sys_chmod os s p (ucast prms1) of
                      Inl e \<Rightarrow> (e, s)
                    | Inr s' \<Rightarrow> (ec, s'))
                 else (ec, s))))"

subsection \<open>Reading a symbolic link\<close>

text \<open>
  \<^verbatim>\<open>static_cast<int>(buffer_size)\<close>: the low 32 bits of the \<^verbatim>\<open>size_t\<close>, read as a signed
  number.
\<close>

definition static_cast_int :: "nat \<Rightarrow> int" where
  "static_cast_int n = (let m = n mod 2 ^ 32 in if m < 2 ^ 31 then int m else int m - 2 ^ 32)"

text \<open>
  The loop of \<^verbatim>\<open>read_symlink\<close>.  \<^verbatim>\<open>buffer_size\<close> is a 64-bit \<^verbatim>\<open>size_t\<close> that doubles with
  wrap-around; \<^verbatim>\<open>readlink\<close> copies at most \<^verbatim>\<open>buffer.size()\<close> bytes of the link's text and
  returns their number \<^verbatim>\<open>rc\<close>, which is compared with \<^verbatim>\<open>static_cast<int>(buffer_size)\<close>.
  The loop need not end, so its result is optional.
\<close>

partial_function (option) readlink_loop ::
  "'s os \<Rightarrow> 's \<Rightarrow> string \<Rightarrow> nat \<Rightarrow> error_code \<Rightarrow> (string \<times> error_code) option" where
  "readlink_loop os s p buffer_size ec =
     (case sys_readlink os s p of
        Inl e \<Rightarrow> Some ([], e)
      | Inr target \<Rightarrow>
          (let rc = min (length target) buffer_size
           in if int rc < static_cast_int buffer_size
              then Some (take rc target, ec)
              else readlink_loop os s p ((buffer_size * 2) mod 2 ^ 64) ec))"

declare readlink_loop.simps [code]

definition read_symlink :: "'s os \<Rightarrow> 's \<Rightarrow> string \<Rightarrow> (string \<times> error_code) option" where
  "read_symlink os s p =
     (case get_file_type os s p of
        (type, ec) \<Rightarrow>
          if type \<noteq> symlink then Some ([], ERROR_INVALID_PARAMETER)
          else readlink_loop os s p 256 ec)"

subsection \<open>Creating directories\<close>

text \<open>\<^verbatim>\<open>mkdir(prms, ec)\<close> returns its result, the error code it leaves and the new state.\<close>

definition mkdir :: "'s os \<Rightarrow> 's \<Rightarrow> string \<Rightarrow> perms \<Rightarrow> bool \<times> error_code \<times> 's" where
  "mkdir os s p prms =
     (case status os s p of
        (fs, ec1) \<Rightarrow>
          if fs_type fs \<noteq> none \<and> exists os s p then (False, 0, s)
          else
            (case sys_mkdir os s p (ucast prms) of
               Inl e \<Rightarrow> (False, e, s)
             | Inr s' \<Rightarrow> (True, 0, s')))"

text \<open>
  The range-for loop of \<^verbatim>\<open>mkdirs(ec)\<close> over the components of the path; \<open>current\<close> is
  the accumulated prefix.
\<close>

function mkdirs_loop ::
  "'s os \<Rightarrow> string \<Rightarrow> string \<Rightarrow> path_iterator \<Rightarrow> string \<Rightarrow> 's \<Rightarrow> bool \<times> error_code \<times> 's" where
  "mkdirs_loop os root_name_v root_path_v iter current s =
     (if it_pos iter < length (it_str iter) then
        (let part = it_current iter
         in if part = root_name_v then
              mkdirs_loop os root_name_v root_path_v (it_next Posix iter) part s
            else
              (let current1 = path_append Posix current part
               in if current1 \<noteq> root_name_v \<and> current1 \<noteq> root_path_v then
                    (case status os s current1 of
                       (fs, ec1) \<Rightarrow>
                         if ec1 \<noteq> 0 \<and> fs_type fs \<noteq> not_found then (False, ec1, s)
                         else if \<not> exists os s current1 then
                           (case mkdir os s current1 perms_all of
                              (r, ec, s') \<Rightarrow>
                                if ec \<noteq> 0 then (False, ec, s')
                                else mkdirs_loop os root_name_v root_path_v
                                       (it_next Posix iter) current1 s')
                         else if fs_type fs \<noteq> directory then (False, 0, s)
                         else mkdirs_loop os root_name_v root_path_v
                                (it_next Posix iter) current1 s)
                  else mkdirs_loop os root_name_v root_path_v (it_next Posix iter) current1 s))
      else (True, 0, s))"
  by pat_completeness auto
termination
proof (relation "measure (\<lambda>(os, rn, rp, iter, current, s). length (it_str iter) - it_pos iter)",
       goal_cases)
  case 1
  show ?case by (rule wf_measure)
qed (use it_next_pos_gt[where g = Posix] in \<open>auto simp: it_next_str intro!: diff_less_mono2\<close>)

declare mkdirs_loop.simps [simp del]

definition mkdirs :: "'s os \<Rightarrow> 's \<Rightarrow> string \<Rightarrow> bool \<times> error_code \<times> 's" where
  "mkdirs os s p =
     mkdirs_loop os (root_name Posix p) (root_path Posix p) (path_begin Posix p) [] s"

subsection \<open>Removing\<close>

definition remove :: "'s os \<Rightarrow> 's \<Rightarrow> string \<Rightarrow> bool \<times> error_code \<times> 's" where
  "remove os s p =
     (case sys_remove os s p of
        Inl e \<Rightarrow> if e = ENOENT then (False, 0, s) else (e = 0, e, s)
      | Inr s' \<Rightarrow> (True, 0, s'))"

text \<open>
  The state of \<^verbatim>\<open>directory_iterator::impl\<close>: \<open>di_dir\<close> is the open stream \<^verbatim>\<open>_dir\<close>, with
  the results \<^verbatim>\<open>readdir\<close> has still to deliver.
\<close>

record dir_impl =
  di_base :: string
  di_dir :: "(int + string) list option"
  di_current :: string
  di_dir_entry :: string
  di_ec :: error_code

text \<open>The \<^verbatim>\<open>do ... while\<close> loop of \<^verbatim>\<open>impl::increment\<close>, over the results still to come.\<close>

fun impl_increment_loop :: "dir_impl \<Rightarrow> (int + string) list \<Rightarrow> error_code \<Rightarrow> dir_impl \<times> error_code" where
  "impl_increment_loop d [] ec = (d\<lparr>di_dir := None, di_current := []\<rparr>, ec)"
| "impl_increment_loop d (Inl e # rest) ec =
     (if e = 0 then (d\<lparr>di_dir := None, di_current := []\<rparr>, ec)
      else (d\<lparr>di_dir := Some rest, di_current := []\<rparr>, e))"
| "impl_increment_loop d (Inr d_name # rest) ec =
     (let cur = path_append Posix (di_base d) d_name;
          d' = d\<lparr>di_dir := Some rest, di_current := cur, di_dir_entry := cur\<rparr>
      in if d_name = ''.'' \<or> d_name = ''..'' then impl_increment_loop d' rest ec
         else (d', ec))"

definition impl_increment :: "dir_impl \<Rightarrow> error_code \<Rightarrow> dir_impl \<times> error_code" where
  "impl_increment d ec =
     (case di_dir d of
        Some pending \<Rightarrow> impl_increment_loop d pending ec
      | None \<Rightarrow> (d, ec))"

text \<open>The constructor of \<^verbatim>\<open>impl\<close>; its call of \<^verbatim>\<open>increment\<close> writes the member \<^verbatim>\<open>ec\<close>.\<close>

definition impl_ctor :: "'s os \<Rightarrow> 's \<Rightarrow> string \<Rightarrow> dir_impl" where
  "impl_ctor os s p =
     (let d0 = \<lparr>di_base = p, di_dir = None, di_current = [], di_dir_entry = [], di_ec = 0\<rparr>
      in if p \<noteq> [] then
           (case sys_opendir os s p of
              Inl e \<Rightarrow> d0\<lparr>di_base := [], di_ec := (if e \<noteq> EACCES then e else 0)\<rparr>
            | Inr pending \<Rightarrow>
                (case impl_increment (d0\<lparr>di_dir := Some pending\<rparr>) 0 of
                   (d1, ec1) \<Rightarrow> d1\<lparr>di_ec := ec1\<rparr>))
         else d0)"

text \<open>\<^verbatim>\<open>directory_iterator(path p, std::error_code& ec)\<close>\<close>

definition directory_iterator :: "'s os \<Rightarrow> 's \<Rightarrow> string \<Rightarrow> error_code \<Rightarrow> dir_impl \<times> error_code" where
  "directory_iterator os s p ec =
     (let d = impl_ctor os s p in (d, if di_ec d \<noteq> 0 then di_ec d else ec))"

text \<open>The end of \<^verbatim>\<open>remove_all(ec)\<close>, after the traversal.\<close>

definition remove_all_finish ::
  "'s os \<Rightarrow> 's \<Rightarrow> string \<Rightarrow> error_code \<Rightarrow> uintmax_t \<Rightarrow> uintmax_t \<times> error_code \<times> 's" where
  "remove_all_finish os s p ec count =
     (case (if ec = 0
            then (case remove os s p of (r, e, s') \<Rightarrow> (if r then count + 1 else count, e, s'))
            else (count, ec, s)) of
        (count1, ec1, s1) \<Rightarrow> if ec1 \<noteq> 0 then (- 1, ec1, s1) else (count1, ec1, s1))"

text \<open>
  \<^verbatim>\<open>remove_all(ec)\<close> and its loop over the directory iterator.  The recursion follows
  the directory tree the system reports, which the embedding cannot bound: the first
  argument is fuel, and \<open>None\<close> means that it ran out.  The loop returns \<open>Inl\<close> when the
  function returns from inside it and \<open>Inr\<close> when the loop is left.
\<close>

fun remove_all :: "nat \<Rightarrow> 's os \<Rightarrow> 's \<Rightarrow> string \<Rightarrow> (uintmax_t \<times> error_code \<times> 's) option"
  and remove_all_loop ::
    "nat \<Rightarrow> 's os \<Rightarrow> 's \<Rightarrow> dir_impl \<Rightarrow> error_code \<Rightarrow> uintmax_t \<Rightarrow>
       ((uintmax_t \<times> error_code \<times> 's) + (uintmax_t \<times> error_code \<times> 's)) option"
where
  "remove_all 0 os s p = None"
| "remove_all (Suc n) os s p =
     (if p = ''/'' then Some (- 1, 0, s)
      else
        (case status os s p of
           (fs, tec) \<Rightarrow>
             if exists os s p \<and> is_directory fs then
               (case directory_iterator os s p 0 of
                  (iter, ec) \<Rightarrow>
                    (case remove_all_loop n os s iter ec 0 of
                       None \<Rightarrow> None
                     | Some (Inl r) \<Rightarrow> Some r
                     | Some (Inr (count, ec', s')) \<Rightarrow> Some (remove_all_finish os s' p ec' count)))
             else Some (remove_all_finish os s p 0 0)))"
| "remove_all_loop 0 os s iter ec count = None"
| "remove_all_loop (Suc n) os s iter ec count =
     (if di_current iter = [] then Some (Inr (count, ec, s))
      else if ec \<noteq> 0 then Some (Inr (count, ec, s))
      else
        (case status os s (di_dir_entry iter) of
           (iter_fs, ec1) \<Rightarrow>
             if fs_type iter_fs \<noteq> symlink \<and> is_directory iter_fs then
               (case remove_all n os s (di_dir_entry iter) of
                  None \<Rightarrow> None
                | Some (c, ec2, s2) \<Rightarrow>
                    if ec2 \<noteq> 0 then Some (Inl (- 1, ec2, s2))
                    else (case impl_increment iter ec2 of
                            (iter', ec3) \<Rightarrow> remove_all_loop n os s2 iter' ec3 (count + c)))
             else
               (case remove os s (di_dir_entry iter) of
                  (r, ec2, s2) \<Rightarrow>
                    if ec2 \<noteq> 0 then Some (Inl (- 1, ec2, s2))
                    else (case impl_increment iter ec2 of
                            (iter', ec3) \<Rightarrow> remove_all_loop n os s2 iter' ec3 (count + 1)))))"

subsection \<open>The entries a removal goes through\<close>




text \<open>
  The same system calls with a counter beside the state: every call of \<^verbatim>\<open>remove\<close> that
  succeeds adds one to it, and nothing else changes it.  The counter is the number of
  entries actually removed.
\<close>

definition counting :: "'s os \<Rightarrow> ('s \<times> nat) os" where
  "counting os =
     \<lparr>sys_lstat = (\<lambda>sc. sys_lstat os (fst sc)),
      sys_stat = (\<lambda>sc. sys_stat os (fst sc)),
      sys_readlink = (\<lambda>sc. sys_readlink os (fst sc)),
      sys_opendir = (\<lambda>sc. sys_opendir os (fst sc)),
      sys_remove = (\<lambda>sc p. case sys_remove os (fst sc) p of
                              Inl e \<Rightarrow> Inl e
                            | Inr s' \<Rightarrow> Inr (s', Suc (snd sc))),
      sys_mkdir = (\<lambda>sc p m. case sys_mkdir os (fst sc) p m of
                               Inl e \<Rightarrow> Inl e
                             | Inr s' \<Rightarrow> Inr (s', snd sc)),
      sys_chmod = (\<lambda>sc p m. case sys_chmod os (fst sc) p m of
                               Inl e \<Rightarrow> Inl e
                             | Inr s' \<Rightarrow> Inr (s', snd sc))\<rparr>"

subsection \<open>Equivalence\<close>

text \<open>
  \<^verbatim>\<open>equivalent(path1, path2, ec)\<close>, POSIX branch.  The value \<^verbatim>\<open>e1\<close> that the source
  reads from \<^verbatim>\<open>errno\<close> after the first \<^verbatim>\<open>stat\<close> is used only when both calls failed,
  where it is the first call's error.
\<close>

definition equivalent :: "'s os \<Rightarrow> 's \<Rightarrow> string \<Rightarrow> string \<Rightarrow> bool \<times> error_code" where
  "equivalent os s path1 path2 =
     (case sys_stat os s path1 of
        Inl e1 \<Rightarrow>
          (case sys_stat os s path2 of
             Inl e2 \<Rightarrow> (False, if e1 \<noteq> 0 then e1 else e2)
           | Inr st2 \<Rightarrow> (False, 0))
      | Inr st1 \<Rightarrow>
          (case sys_stat os s path2 of
             Inl e2 \<Rightarrow> (False, 0)
           | Inr st2 \<Rightarrow>
               (st_dev st1 = st_dev st2 \<and> st_ino st1 = st_ino st2 \<and>
                st_size st1 = st_size st2 \<and> st_mtime st1 = st_mtime st2, 0)))"

text \<open>
  The Windows branch of \<^verbatim>\<open>equivalent\<close>, over the two system calls it makes:
  \<^verbatim>\<open>CreateFileW\<close> gives a handle or fails, \<^verbatim>\<open>GetFileInformationByHandle\<close> gives the
  information or fails; a failure carries the value of \<^verbatim>\<open>GetLastError()\<close>.
\<close>

record by_handle_file_information =
  dwVolumeSerialNumber :: "32 word"
  ftLastWriteTime_dwLowDateTime :: "32 word"
  ftLastWriteTime_dwHighDateTime :: "32 word"
  nFileSizeHigh :: "32 word"
  nFileSizeLow :: "32 word"
  nFileIndexHigh :: "32 word"
  nFileIndexLow :: "32 word"

record ('s, 'h) win_os =
  win_CreateFileW :: "'s \<Rightarrow> string \<Rightarrow> int + 'h"
  win_GetFileInformationByHandle :: "'s \<Rightarrow> 'h \<Rightarrow> int + by_handle_file_information"

definition equivalent_windows ::
  "('s, 'h) win_os \<Rightarrow> 's \<Rightarrow> string \<Rightarrow> string \<Rightarrow> bool \<times> error_code" where
  "equivalent_windows w s path1 path2 =
     (case win_CreateFileW w s path1 of
        Inl e1 \<Rightarrow>
          (case win_CreateFileW w s path2 of
             Inl e2 \<Rightarrow> (False, if e1 \<noteq> 0 then e1 else e2)
           | Inr file2 \<Rightarrow> (False, 0))
      | Inr file1 \<Rightarrow>
          (case win_CreateFileW w s path2 of
             Inl e2 \<Rightarrow> (False, 0)
           | Inr file2 \<Rightarrow>
               (case win_GetFileInformationByHandle w s file1 of
                  Inl e \<Rightarrow> (False, e)
                | Inr inf1 \<Rightarrow>
                    (case win_GetFileInformationByHandle w s file2 of
                       Inl e \<Rightarrow> (False, e)
                     | Inr inf2 \<Rightarrow>
                         (ftLastWriteTime_dwLowDateTime inf1 = ftLastWriteTime_dwLowDateTime inf2 \<and>
                          ftLastWriteTime_dwHighDateTime inf1 = ftLastWriteTime_dwHighDateTime inf2 \<and>
                          nFileIndexHigh inf1 = nFileIndexHigh inf2 \<and>
                          nFileIndexLow inf1 = nFileIndexLow inf2 \<and>
                          nFileSizeHigh inf1 = nFileSizeHigh inf2 \<and>
                          nFileSizeLow inf1 = nFileSizeLow inf2 \<and>
                          dwVolumeSerialNumber inf1 = dwVolumeSerialNumber inf2, 0)))))"

subsection \<open>The throwing forms\<close>

text \<open>
  A thrown \<^verbatim>\<open>filesystem_error\<close> is the left injection of the result.  Its message is the
  given prefix followed by the system's text for the code, which is not modelled.
\<close>

record filesystem_error =
  fe_what :: string
  fe_path1 :: string
  fe_code :: error_code

definition file_size_throwing :: "'s os \<Rightarrow> 's \<Rightarrow> string \<Rightarrow> filesystem_error + uintmax_t" where
  "file_size_throwing os s p =
     (case file_size os s p of
        (result, ec) \<Rightarrow>
          if ec \<noteq> 0 then Inl \<lparr>fe_what = ''file_size -- '', fe_path1 = p, fe_code = ec\<rparr>
          else Inr result)"

definition last_write_time_throwing :: "'s os \<Rightarrow> 's \<Rightarrow> string \<Rightarrow> filesystem_error + int" where
  "last_write_time_throwing os s p =
     (case last_write_time os s p of
        (result, ec) \<Rightarrow>
          if ec \<noteq> 0 then Inl \<lparr>fe_what = ''last_write_time -- '', fe_path1 = p, fe_code = ec\<rparr>
          else Inr result)"

definition mkdir_throwing ::
  "'s os \<Rightarrow> 's \<Rightarrow> string \<Rightarrow> perms \<Rightarrow> (filesystem_error \<times> 's) + (bool \<times> 's)" where
  "mkdir_throwing os s p prms =
     (case mkdir os s p prms of
        (result, ec, s') \<Rightarrow>
          if ec \<noteq> 0 then Inl (\<lparr>fe_what = ''path::mkdir -- '', fe_path1 = p, fe_code = ec\<rparr>, s')
          else Inr (result, s'))"

text \<open>
  \<^verbatim>\<open>mkdirs()\<close>: the source tests the fresh \<^verbatim>\<open>ec\<close> before it calls \<^verbatim>\<open>mkdirs(ec)\<close>, and
  returns the call's result.
\<close>

definition mkdirs_throwing ::
  "'s os \<Rightarrow> 's \<Rightarrow> string \<Rightarrow> (filesystem_error \<times> 's) + (bool \<times> 's)" where
  "mkdirs_throwing os s p =
     (let ec = (0 :: error_code)
      in if ec \<noteq> 0 then Inl (\<lparr>fe_what = ''path::mkdirs -- '', fe_path1 = p, fe_code = ec\<rparr>, s)
         else (case mkdirs os s p of (result, ec', s') \<Rightarrow> Inr (result, s')))"

definition remove_throwing ::
  "'s os \<Rightarrow> 's \<Rightarrow> string \<Rightarrow> (filesystem_error \<times> 's) + (bool \<times> 's)" where
  "remove_throwing os s p =
     (case remove os s p of
        (result, ec, s') \<Rightarrow>
          if ec \<noteq> 0 then Inl (\<lparr>fe_what = ''path::remove -- '', fe_path1 = p, fe_code = ec\<rparr>, s')
          else Inr (result, s'))"

definition remove_all_throwing ::
  "nat \<Rightarrow> 's os \<Rightarrow> 's \<Rightarrow> string \<Rightarrow> ((filesystem_error \<times> 's) + (uintmax_t \<times> 's)) option" where
  "remove_all_throwing n os s p =
     (case remove_all n os s p of
        None \<Rightarrow> None
      | Some (result, ec, s') \<Rightarrow>
          Some (if ec \<noteq> 0
                then Inl (\<lparr>fe_what = ''path::remove_all -- '', fe_path1 = p, fe_code = ec\<rparr>, s')
                else Inr (result, s')))"

section \<open>A small file system for concrete runs\<close>

text \<open>
  An instance of the system-call record, used to run the embedded functions on explicit
  inputs.  The state lists every entry under its path from the working directory, with
  its kind and permission bits.  A symbolic link holds the listed path of its target and
  is followed one level; intermediate components that are links are followed.  A path
  that runs through an entry that is not a directory is reported as missing.
\<close>

datatype toy_node = TFile | TDir | TLink string

type_synonym toy_fs = "(string \<times> toy_node \<times> 32 word) list"

fun toy_split :: "string \<Rightarrow> string \<Rightarrow> string list" where
  "toy_split acc [] = (if acc = [] then [] else [acc])"
| "toy_split acc (c # cs) =
     (if c = CHR ''/'' then (if acc = [] then toy_split [] cs else acc # toy_split [] cs)
      else toy_split (acc @ [c]) cs)"

fun toy_walk :: "toy_fs \<Rightarrow> bool \<Rightarrow> string \<Rightarrow> string list \<Rightarrow> string" where
  "toy_walk fs follow cur [] = cur"
| "toy_walk fs follow cur (c # cs) =
     (let nxt = (if cur = [] then c else cur @ ''/'' @ c)
      in case map_of fs nxt of
           Some (TLink target, m) \<Rightarrow>
             if cs \<noteq> [] \<or> follow then toy_walk fs follow target cs else nxt
         | _ \<Rightarrow> toy_walk fs follow nxt cs)"

definition toy_resolve :: "toy_fs \<Rightarrow> bool \<Rightarrow> string \<Rightarrow> string" where
  "toy_resolve fs follow p = toy_walk fs follow [] (toy_split [] p)"

fun toy_ino :: "toy_fs \<Rightarrow> string \<Rightarrow> nat" where
  "toy_ino [] k = 0"
| "toy_ino ((k', n) # rest) k = (if k = k' then 1 else Suc (toy_ino rest k))"

definition toy_stat_t :: "toy_fs \<Rightarrow> string \<Rightarrow> toy_node \<times> 32 word \<Rightarrow> stat_t" where
  "toy_stat_t fs k nm =
     \<lparr>st_dev = 1, st_ino = toy_ino fs k,
      st_mode = (case fst nm of TFile \<Rightarrow> S_IFREG | TDir \<Rightarrow> S_IFDIR | TLink t \<Rightarrow> S_IFLNK) OR snd nm,
      st_nlink = 1, st_size = 0, st_mtime = 0\<rparr>"

definition toy_query :: "toy_fs \<Rightarrow> bool \<Rightarrow> string \<Rightarrow> int + stat_t" where
  "toy_query fs follow p =
     (let k = toy_resolve fs follow p
      in case map_of fs k of None \<Rightarrow> Inl ENOENT | Some nm \<Rightarrow> Inr (toy_stat_t fs k nm))"

definition toy_children :: "toy_fs \<Rightarrow> string \<Rightarrow> string list" where
  "toy_children fs k =
     concat (map (\<lambda>(k', nm).
        (let d_name = drop (length k + 1) k'
         in if take (length k + 1) k' = k @ ''/'' \<and> d_name \<noteq> [] \<and> CHR ''/'' \<notin> set d_name
            then [d_name] else [])) fs)"

definition toy_readlink :: "toy_fs \<Rightarrow> string \<Rightarrow> int + string" where
  "toy_readlink fs p =
     (case map_of fs (toy_resolve fs False p) of
        None \<Rightarrow> Inl ENOENT
      | Some (TLink target, m) \<Rightarrow> Inr target
      | Some _ \<Rightarrow> Inl 22)"

definition toy_opendir :: "toy_fs \<Rightarrow> string \<Rightarrow> int + (int + string) list" where
  "toy_opendir fs p =
     (let k = toy_resolve fs True p
      in case map_of fs k of
           None \<Rightarrow> Inl ENOENT
         | Some (TDir, m) \<Rightarrow> Inr (map Inr (''.'' # ''..'' # toy_children fs k))
         | Some _ \<Rightarrow> Inl 20)"

definition toy_remove :: "toy_fs \<Rightarrow> string \<Rightarrow> int + toy_fs" where
  "toy_remove fs p =
     (let k = toy_resolve fs False p
      in case map_of fs k of
           None \<Rightarrow> Inl ENOENT
         | Some (TDir, m) \<Rightarrow>
             if toy_children fs k = [] then Inr (filter (\<lambda>(k', nm). k' \<noteq> k) fs)
             else Inl ENOTEMPTY
         | Some _ \<Rightarrow> Inr (filter (\<lambda>(k', nm). k' \<noteq> k) fs))"

definition toy_mkdir :: "toy_fs \<Rightarrow> string \<Rightarrow> 32 word \<Rightarrow> int + toy_fs" where
  "toy_mkdir fs p mode =
     (let k = toy_resolve fs False p
      in case map_of fs k of
           None \<Rightarrow> Inr (fs @ [(k, TDir, mode)])
         | Some nm \<Rightarrow> Inl EEXIST)"

definition toy_chmod :: "toy_fs \<Rightarrow> string \<Rightarrow> 32 word \<Rightarrow> int + toy_fs" where
  "toy_chmod fs p mode =
     (let k = toy_resolve fs True p
      in case map_of fs k of
           None \<Rightarrow> Inl ENOENT
         | Some nm \<Rightarrow> Inr (map (\<lambda>(k', nm'). if k' = k then (k', fst nm', mode) else (k', nm')) fs))"

definition toy_os :: "toy_fs os" where
  "toy_os =
     \<lparr>sys_lstat = (\<lambda>fs p. toy_query fs False p),
      sys_stat = (\<lambda>fs p. toy_query fs True p),
      sys_readlink = toy_readlink,
      sys_opendir = toy_opendir,
      sys_remove = toy_remove,
      sys_mkdir = toy_mkdir,
      sys_chmod = toy_chmod\<rparr>"

text \<open>
  A directory \<^verbatim>\<open>d\<close> that holds a file \<^verbatim>\<open>d/g\<close> and a link \<^verbatim>\<open>d/l\<close> to the directory \<^verbatim>\<open>t\<close>,
  which holds the file \<^verbatim>\<open>t/f\<close>; an empty directory \<^verbatim>\<open>e\<close>; a link \<^verbatim>\<open>k\<close> to the file
  \<^verbatim>\<open>d/g\<close>; and a link \<^verbatim>\<open>x\<close> whose target does not exist.
\<close>

definition toy_example :: toy_fs where
  "toy_example =
     [(''d'', TDir, 0x1ED), (''d/g'', TFile, 0x1A4), (''d/l'', TLink ''t'', 0x1FF),
      (''t'', TDir, 0x1ED), (''t/f'', TFile, 0x1A4), (''e'', TDir, 0x1ED),
      (''k'', TLink ''d/g'', 0x1FF), (''x'', TLink ''nowhere'', 0x1FF)]"


text \<open>An instance of the Windows calls: the state lists the paths that can be opened.\<close>

definition toy_win :: "(string list, string) win_os" where
  "toy_win =
     \<lparr>win_CreateFileW = (\<lambda>s p. if p \<in> set s then Inr p else Inl 2),
      win_GetFileInformationByHandle = (\<lambda>s h.
         Inr \<lparr>dwVolumeSerialNumber = 1, ftLastWriteTime_dwLowDateTime = 0,
              ftLastWriteTime_dwHighDateTime = 0, nFileSizeHigh = 0, nFileSizeLow = 0,
              nFileIndexHigh = 0, nFileIndexLow = of_nat (length h)\<rparr>)\<rparr>"

section \<open>Properties of the lexical operations\<close>

subsection \<open>Root name, root directory and append\<close>

lemma find_first_of_SomeD:
  assumes "find_first_of s cs i = Some k"
  shows "i \<le> k" "k < length s" "s ! k \<in> set cs" "find_first_of (take k s) cs i = None"
proof -
  define P where "P = (\<lambda>c. c \<notin> set cs)"
  define n where "n = length (takeWhile P (drop i s))"
  from assms have k: "k = i + n" and lt: "k < length s"
    by (auto simp: find_first_of_def Let_def n_def P_def split: if_splits)
  show "i \<le> k" using k by simp
  show "k < length s" by (rule lt)
  have len: "n < length (drop i s)"
    using k lt by simp
  have "\<not> P (drop i s ! n)"
    unfolding n_def by (rule nth_length_takeWhile) (use len in \<open>simp add: n_def\<close>)
  moreover have "drop i s ! n = s ! k" using k lt by (simp add: add.commute)
  ultimately show "s ! k \<in> set cs" by (simp add: P_def)
  have "drop i (take k s) = take n (drop i s)"
    using k by (simp add: drop_take)
  also have "\<dots> = takeWhile P (drop i s)"
    unfolding n_def by (rule takeWhile_eq_take[symmetric])
  finally have "takeWhile P (drop i (take k s)) = takeWhile P (drop i s)"
    by simp
  then have "length (takeWhile P (drop i (take k s))) = n" by (simp add: n_def)
  then show "find_first_of (take k s) cs i = None"
    using k lt by (simp add: find_first_of_def Let_def P_def)
qed

lemma root_name_prefix: "root_name g p = take (length (root_name g p)) p"
  by (auto simp: root_name_def split: option.splits dest: find_first_of_SomeD(2))

lemma root_name_idem: "root_name g (root_name g p) = root_name g p"
proof (cases "g = Windows \<and> length p \<ge> 2 \<and> drive_letter (p ! 0) \<and> p ! 1 = CHR '':''")
  case True
  then have "root_name g p = take 2 p" by (simp add: root_name_def)
  moreover from True have "root_name g (take 2 p) = take 2 p" by (simp add: root_name_def)
  ultimately show ?thesis by simp
next
  case drive: False
  show ?thesis
  proof (cases "length p > 2 \<and> p ! 0 = CHR ''/'' \<and> p ! 1 = CHR ''/'' \<and> p ! 2 \<noteq> CHR ''/'' \<and> isprint (p ! 2)")
    case unc: True
    have nd: "\<not> drive_letter CHR ''/''" by (simp add: drive_letter_def toupper_def)
    show ?thesis
    proof (cases "find_first_of p [CHR ''/'', CHR 0x5C] 3")
      case None
      with drive unc have "root_name g p = p" by (auto simp: root_name_def)
      then show ?thesis by simp
    next
      case (Some k)
      from find_first_of_SomeD[OF Some] have k: "3 \<le> k" "k < length p"
        and none: "find_first_of (take k p) [CHR ''/'', CHR 0x5C] 3 = None" by simp_all
      from drive unc Some have rn: "root_name g p = take k p" by (auto simp: root_name_def)
      from k unc nd none have "root_name g (take k p) = take k p"
        by (auto simp: root_name_def)
      with rn show ?thesis by simp
    qed
  next
    case False
    with drive have "root_name g p = []" by (auto simp: root_name_def)
    moreover have "root_name g [] = []" by (simp add: root_name_def)
    ultimately show ?thesis by simp
  qed
qed

lemma root_name_sep [simp]: "root_name g [preferred_separator g] = []"
  by (simp add: root_name_def)

lemma root_directory_sep [simp]: "root_directory g [preferred_separator g] = [preferred_separator g]"
  by (simp add: root_directory_def)

lemma root_directory_Nil [simp]: "root_directory g [] = []"
  by (simp add: root_directory_def)

lemma is_absolute_Nil [simp]: "\<not> is_absolute g []"
  by (cases g) (simp_all add: is_absolute_def has_root_directory_def)

lemma root_directory_eq:
  "root_directory g p = [] \<or> root_directory g p = [preferred_separator g]"
  by (simp add: root_directory_def Let_def)

lemma root_directory_sepD:
  "root_directory g p = [preferred_separator g] \<Longrightarrow>
     length (root_name g p) < length p \<and> p ! length (root_name g p) = preferred_separator g"
  by (simp add: root_directory_def Let_def split: if_splits)

lemma path_append_Nil:
  "path_append g a [] =
     (if a \<noteq> [] \<and> last a \<noteq> preferred_separator g \<and> last a \<noteq> CHR '':''
      then a @ [preferred_separator g] else a)"
  by (simp add: path_append.simps)

lemma path_begin_sep:
  "path_begin g [preferred_separator g] =
     \<lparr>it_str = [preferred_separator g], it_root = 0, it_pos = 0,
      it_current = [preferred_separator g]\<rparr>"
  by (simp add: path_begin_def iterator_def update_current_def increment_def Let_def)

lemma append_loop_sep:
  "append_loop g (path_begin g [preferred_separator g]) True a = a @ [preferred_separator g]"
proof -
  let ?it = "path_begin g [preferred_separator g]"
  have pos: "it_pos ?it = 0" and str: "it_str ?it = [preferred_separator g]"
    and cur: "it_current ?it = [preferred_separator g]"
    by (simp_all add: path_begin_sep)
  have "it_pos ?it < length (it_str ?it)" by (simp add: pos str)
  from it_next_pos_gt[OF this, of g] have "\<not> it_pos (it_next g ?it) < length (it_str (it_next g ?it))"
    by (simp add: it_next_str pos str)
  then have stop: "append_loop g (it_next g ?it) False (a @ [preferred_separator g]) = a @ [preferred_separator g]"
    by (subst append_loop.simps) simp
  show ?thesis
    by (subst append_loop.simps) (simp add: pos str cur stop)
qed

lemma path_append_root_name_sep:
  assumes "a = root_name g a"
  shows "path_append g a [preferred_separator g] = a @ [preferred_separator g]"
proof -
  have "root_name g a = a" using assms by simp
  then show ?thesis
    by (subst path_append.simps)
       (simp add: Let_def has_root_name_def has_root_directory_def append_loop_sep)
qed

lemma path_append_absolute:
  assumes "is_absolute g b" and "\<not> (a = root_name g a \<and> b = [preferred_separator g])"
  shows "path_append g a b = b"
proof -
  from assms(1) have "b \<noteq> []" by auto
  with assms show ?thesis
    by (subst path_append.simps) (auto simp: Let_def)
qed

lemma root_path_eq:
  "root_path g p = root_name g p @ root_directory g p @
     (if root_name g p \<noteq> [] \<and> root_directory g p = [] \<and>
         last (root_name g p) \<noteq> preferred_separator g \<and> last (root_name g p) \<noteq> CHR '':''
      then [preferred_separator g] else [])"
proof -
  consider "root_directory g p = []" | "root_directory g p = [preferred_separator g]"
    using root_directory_eq by blast
  then show ?thesis
  proof cases
    case 1
    then show ?thesis by (simp add: root_path.simps path_append_Nil)
  next
    case 2
    then show ?thesis
      by (simp add: root_path.simps path_append_root_name_sep[OF root_name_idem[symmetric]])
  qed
qed

lemma reconstruction_iff:
  "(root_name g p @ root_directory g p @ relative_path g p = p) =
     (root_name g p = [] \<or> root_directory g p = [preferred_separator g] \<or>
      root_name g p = p \<or> last (root_name g p) = preferred_separator g \<or>
      last (root_name g p) = CHR '':'')"
proof -
  define n where "n = length (root_name g p)"
  have rn: "root_name g p = take n p"
    unfolding n_def by (rule root_name_prefix)
  have n_le: "n \<le> length p"
  proof -
    have "length (root_name g p) = min (length p) n"
      by (subst rn) simp
    then show ?thesis by (simp add: n_def)
  qed
  have rel: "relative_path g p = drop (min (length (root_path g p)) (length p)) p"
    by (simp add: relative_path.simps)
  consider (dir) "root_directory g p = [preferred_separator g]"
    | (plain) "root_directory g p = []"
        "root_name g p = [] \<or> last (root_name g p) = preferred_separator g \<or>
         last (root_name g p) = CHR '':''"
    | (slash) "root_directory g p = []" "root_name g p \<noteq> []"
        "last (root_name g p) \<noteq> preferred_separator g" "last (root_name g p) \<noteq> CHR '':''"
    using root_directory_eq[of g p] by blast
  then show ?thesis
  proof cases
    case dir
    from root_directory_sepD[OF dir] have lt: "n < length p" and at: "p ! n = preferred_separator g"
      by (simp_all add: n_def)
    have "length (root_path g p) = Suc n"
      by (simp add: root_path_eq dir n_def)
    with lt have "relative_path g p = drop (Suc n) p" by (simp add: rel)
    moreover have "take n p @ [p ! n] @ drop (Suc n) p = p"
      using lt by (simp add: id_take_nth_drop[symmetric])
    ultimately show ?thesis using dir rn at by simp
  next
    case plain
    then have "length (root_path g p) = n"
      by (auto simp: root_path_eq n_def)
    with n_le have "relative_path g p = drop n p" by (simp add: rel)
    then show ?thesis using plain rn by auto
  next
    case slash
    then have len: "length (root_path g p) = Suc n"
      by (simp add: root_path_eq n_def)
    show ?thesis
    proof (cases "root_name g p = p")
      case True
      then have "n = length p" by (simp add: n_def)
      with len have "relative_path g p = []" by (simp add: rel)
      with True slash show ?thesis by simp
    next
      case False
      with rn n_le have lt: "n < length p" by (cases "n = length p") auto
      with len have "relative_path g p = drop (Suc n) p" by (simp add: rel)
      then have "length (root_name g p @ root_directory g p @ relative_path g p) = length p - 1"
        using slash(1) lt by (simp add: n_def[symmetric])
      with lt have "root_name g p @ root_directory g p @ relative_path g p \<noteq> p"
        by (metis diff_less length_greater_0_conv less_numeral_extra(1) less_irrefl list.size(3) not_less_zero)
      with False slash show ?thesis by simp
    qed
  qed
qed

subsection \<open>The reconstruction invariant\<close>

text \<open>
  Claim C2, as amended.  \<^verbatim>\<open>root_path()\<close> is \<^verbatim>\<open>root_name() / root_directory()\<close>, which is
  the concatenation of the two followed by one more separator exactly when the root name
  is not empty, there is no root directory, and the root name ends in neither a separator
  nor a colon.  \<^verbatim>\<open>relative_path()\<close> is the suffix of the native string after the
  length of \<^verbatim>\<open>root_path()\<close>, clamped to the length of the string.  The concatenation of
  root name, root directory and relative path is the native string exactly when the root
  name is empty, or a root directory is present, or the root name is the whole string, or
  the root name ends in a separator or a colon.
\<close>

theorem root_path_decomposition:
  "root_path g p = path_append g (root_name g p) (root_directory g p)
   \<and> root_path g p = root_name g p @ root_directory g p @
         (if root_name g p \<noteq> [] \<and> root_directory g p = [] \<and>
             last (root_name g p) \<noteq> preferred_separator g \<and>
             last (root_name g p) \<noteq> CHR '':''
          then [preferred_separator g] else [])
   \<and> relative_path g p = drop (min (length (root_path g p)) (length p)) p
   \<and> (root_name g p @ root_directory g p @ relative_path g p = p) =
       (root_name g p = [] \<or> root_directory g p = [preferred_separator g] \<or>
        root_name g p = p \<or> last (root_name g p) = preferred_separator g \<or>
        last (root_name g p) = CHR '':'')"
proof (intro conjI)
  show "root_path g p = path_append g (root_name g p) (root_directory g p)"
    by (simp add: root_path.simps)
  show "relative_path g p = drop (min (length (root_path g p)) (length p)) p"
    by (simp add: relative_path.simps)
qed (rule root_path_eq, rule reconstruction_iff)

text \<open>
  The claim as stated fails.  On the POSIX-style grammar the root path of \<^verbatim>\<open>//srv\<close> is
  \<^verbatim>\<open>//srv/\<close>.  On the Windows-style grammar the three parts of \<^verbatim>\<open>//srv/x\<close> concatenate
  to \<^verbatim>\<open>//srvx\<close>, and on the POSIX-style grammar the three parts of \<^verbatim>\<open>//a\<close>, backslash,
  \<^verbatim>\<open>b\<close> concatenate to \<^verbatim>\<open>//ab\<close>.
\<close>

theorem root_path_decomposition_counterexample:
  "root_path Posix ''//srv'' \<noteq> root_name Posix ''//srv'' @ root_directory Posix ''//srv''
   \<and> root_name Windows ''//srv/x'' @ root_directory Windows ''//srv/x'' @
         relative_path Windows ''//srv/x'' \<noteq> ''//srv/x''
   \<and> root_name Posix [CHR ''/'', CHR ''/'', CHR ''a'', CHR 0x5C, CHR ''b''] @
       root_directory Posix [CHR ''/'', CHR ''/'', CHR ''a'', CHR 0x5C, CHR ''b''] @
       relative_path Posix [CHR ''/'', CHR ''/'', CHR ''a'', CHR 0x5C, CHR ''b'']
         \<noteq> [CHR ''/'', CHR ''/'', CHR ''a'', CHR 0x5C, CHR ''b'']"
  by code_simp

subsection \<open>The append laws\<close>

text \<open>
  Claim C7, as amended.  Appending the empty path adds exactly one preferred separator
  when the left path is not empty and ends in neither a separator nor a colon, and
  leaves it unchanged otherwise.  For an absolute right path \<open>b\<close>, \<open>a / b\<close> is exactly
  \<open>b\<close>, whatever the roots, unless \<open>a\<close> is its own root name and \<open>b\<close> is the lone
  separator; in that case \<open>a / b\<close> is \<open>a\<close> followed by the separator.
\<close>

theorem append_laws:
  "path_append g a [] =
     (if a \<noteq> [] \<and> last a \<noteq> preferred_separator g \<and> last a \<noteq> CHR '':''
      then a @ [preferred_separator g] else a)
   \<and> (is_absolute g b \<and> \<not> (a = root_name g a \<and> b = [preferred_separator g])
        \<longrightarrow> path_append g a b = b)
   \<and> (a = root_name g a \<longrightarrow>
        path_append g a [preferred_separator g] = a @ [preferred_separator g])"
  using path_append_Nil path_append_absolute path_append_root_name_sep by blast

theorem append_laws_witness:
  "path_append Posix ''/usr'' [] = ''/usr/''
   \<and> path_append Posix ''/usr'' ''/etc'' = ''/etc''
   \<and> path_append Posix ''//srv'' ''/'' = ''//srv/''"
proof -
  have abs: "is_absolute Posix ''/etc''" by code_simp
  have ne: "\<not> (''/usr'' = root_name Posix ''/usr'' \<and> ''/etc'' = [preferred_separator Posix])"
    by code_simp
  have rn: "''//srv'' = root_name Posix ''//srv''" by code_simp
  have sep: "[preferred_separator Posix] = ''/''" by code_simp
  show ?thesis
    using append_laws[of Posix "''/usr''" "''/etc''"] append_laws[of Posix "''//srv''" "''/''"]
      abs ne rn sep by simp
qed

text \<open>
  The claim as stated fails on the POSIX-style grammar for \<open>a\<close> the root name
  \<^verbatim>\<open>//srv\<close> and \<open>b\<close> the root directory \<^verbatim>\<open>/\<close>: \<open>b\<close> is absolute, the roots differ, and
  \<open>a / b\<close> is \<^verbatim>\<open>//srv/\<close>.
\<close>

theorem append_laws_counterexample:
  "is_absolute Posix ''/''
   \<and> root_name Posix ''/'' \<noteq> root_name Posix ''//srv''
   \<and> root_path Posix ''/'' \<noteq> root_path Posix ''//srv''
   \<and> path_append Posix ''//srv'' ''/'' \<noteq> ''/''"
  by code_simp

subsection \<open>The filename\<close>

lemma get_filename_usr_local: "get_filename Posix ''/usr/local'' = ''local''"
  by code_simp

lemma get_filename_usr_local_slash: "get_filename Posix ''/usr/local/'' = []"
  by code_simp

lemma path_end_fields:
  "it_str (path_end g p) = p" "it_pos (path_end g p) = length p"
  by (simp_all add: path_end_def iterator_def Let_def)

lemma increment_at_end: "increment g p (length p) = length p"
  by (simp add: increment_def Let_def)

lemma path_end_root:
  "it_root (path_end g p) = length p \<or> it_root (path_end g p) = 0 \<or>
   (it_root (path_end g p) = 2 \<and> g = Windows \<and> length p \<ge> 3 \<and> drive_letter (p ! 0) \<and>
    p ! 1 = CHR '':'' \<and> p ! 2 = preferred_separator g)"
  by (auto simp: path_end_def iterator_def Let_def increment_at_end)

lemma relative_path_drive_root:
  assumes "g = Windows" "length p = 3" "drive_letter (p ! 0)" "p ! 1 = CHR '':''"
    "p ! 2 = preferred_separator g"
  shows "relative_path g p = []"
proof -
  from assms have rn: "root_name g p = take 2 p" by (simp add: root_name_def)
  with assms have rd: "root_directory g p = [preferred_separator g]"
    by (simp add: root_directory_def)
  from rn rd assms have "length (root_path g p) = 3" by (simp add: root_path_eq)
  with assms show ?thesis by (simp add: relative_path.simps)
qed

lemma relative_path_sep: "relative_path g [preferred_separator g] = []"
proof -
  have "root_path g [preferred_separator g] = [preferred_separator g]"
    by (simp add: root_path_eq)
  then show ?thesis by (simp add: relative_path.simps)
qed

lemma get_filename_trailing_separator:
  assumes rel: "has_relative_path g p" and tr: "last p = preferred_separator g"
  shows "get_filename g p = []"
proof -
  define n where "n = length p"
  define r where "r = it_root (path_end g p)"
  from rel have ne: "p \<noteq> []"
    by (auto simp: has_relative_path.simps relative_path.simps)
  have n2: "2 \<le> n"
  proof (rule ccontr)
    assume "\<not> 2 \<le> n"
    with ne have "length p = 1" by (cases p) (auto simp: n_def not_le)
    then obtain c where "p = [c]" by (cases p) auto
    with tr have "p = [preferred_separator g]" by simp
    with rel show False by (simp add: has_relative_path.simps relative_path_sep)
  qed
  have at: "p ! (n - 1) = preferred_separator g"
    using tr ne by (simp add: last_conv_nth n_def)
  have rne: "r \<noteq> n - 1"
  proof
    assume eq: "r = n - 1"
    from path_end_root[of g p] n2 eq have drive: "r = 2" "g = Windows" "drive_letter (p ! 0)"
      "p ! 1 = CHR '':''" "p ! 2 = preferred_separator g"
      by (auto simp: r_def n_def)
    with eq n2 have "length p = 3" by (simp add: n_def)
    from relative_path_drive_root[OF drive(2) this drive(3-5)] rel show False
      by (simp add: has_relative_path.simps)
  qed
  have dec: "decrement g p r n = n - 1"
    using n2 at by (simp add: decrement_def Let_def n_def)
  have "update_current g p (Some r) (n - 1) = []"
    using n2 at rne by (auto simp: update_current_def Let_def n_def)
  with dec have "it_current (it_prev g (path_end g p)) = []"
    by (simp add: it_prev_def Let_def path_end_fields r_def n_def)
  with rel show ?thesis by (simp add: get_filename.simps)
qed

lemma rfind_base_le: "rfind_base s P i \<le> i"
  by (induction i) auto

lemma rfind_base_none_after: "rfind_base s P i \<le> k \<Longrightarrow> k < i \<Longrightarrow> \<not> P (s ! k)"
proof (induction i)
  case 0
  then show ?case by simp
next
  case (Suc i)
  then show ?case by (cases "k = i") (auto split: if_splits)
qed

lemma find_from_none:
  assumes "i \<le> length s" and "\<And>k. i \<le> k \<Longrightarrow> k < length s \<Longrightarrow> s ! k \<noteq> c"
  shows "find_from s c i = length s"
proof -
  have "\<forall>x \<in> set (drop i s). x \<noteq> c"
  proof
    fix x assume "x \<in> set (drop i s)"
    then obtain m where m: "m < length (drop i s)" "x = drop i s ! m"
      by (auto simp: in_set_conv_nth)
    then have "x = s ! (i + m)" "i + m < length s" using assms(1) by simp_all
    with assms(2)[of "i + m"] show "x \<noteq> c" by simp
  qed
  then have "takeWhile (\<lambda>x. x \<noteq> c) (drop i s) = drop i s"
    by (simp add: takeWhile_eq_all_conv)
  then have "length (takeWhile (\<lambda>x. x \<noteq> c) (drop i s)) = length s - i"
    by (simp only: length_drop)
  with assms(1) show ?thesis by (simp only: find_from_def)
qed

lemma path_end_root_Posix:
  "it_root (path_end Posix p) = length p \<or>
   (it_root (path_end Posix p) = 0 \<and> p \<noteq> [] \<and> p ! 0 = CHR ''/'')"
  by (auto simp: path_end_def iterator_def Let_def increment_at_end preferred_separator_def)

lemma get_filename_after_last_separator:
  assumes rel: "has_relative_path Posix p"
    and tr: "last p \<noteq> CHR ''/''"
    and j: "j = rfind_base p (\<lambda>c. c = CHR ''/'') (length p - 1)"
    and unc: "\<not> (j = 2 \<and> p ! 0 = CHR ''/'' \<and> p ! 1 = CHR ''/'')"
    and colon: "\<not> (j = 0 \<and> 1 < length p \<and> p ! 1 = CHR '':'')"
  shows "get_filename Posix p = drop j p"
proof -
  define n where "n = length p"
  define r where "r = it_root (path_end Posix p)"
  have sep: "preferred_separator Posix = CHR ''/''" by (simp add: preferred_separator_def)
  from rel have ne: "p \<noteq> []"
    by (auto simp: has_relative_path.simps relative_path.simps)
  then have n1: "1 \<le> n" by (cases p) (simp_all add: n_def)
  have at: "p ! (n - 1) \<noteq> CHR ''/''"
    using tr ne by (simp add: last_conv_nth n_def)
  have jle: "j \<le> n - 1" unfolding j n_def by (rule rfind_base_le)
  then have jlt: "j < n" using n1 by simp
  have nosep: "p ! k \<noteq> CHR ''/''" if "j \<le> k" "k < n" for k
  proof (cases "k = n - 1")
    case True
    with at show ?thesis by simp
  next
    case False
    with that have "k < n - 1" by simp
    from rfind_base_none_after[of p "\<lambda>c. c = CHR ''/''" "n - 1" k] that(1) this
    show ?thesis by (simp add: j n_def)
  qed
  have rne: "n - 1 \<noteq> r"
  proof
    assume eq: "n - 1 = r"
    from path_end_root_Posix[of p] eq n1 have "r = 0" "p ! 0 = CHR ''/''"
      by (auto simp: r_def n_def)
    with eq have "n - 1 = 0" by simp
    with at \<open>p ! 0 = CHR ''/''\<close> show False by simp
  qed
  have dec: "decrement Posix p r n = j"
    using n1 at rne unc by (auto simp: decrement_def Let_def n_def sep j)
  have inc: "increment Posix p j = n"
  proof -
    have ff: "find_from p CHR ''/'' (j + 1) = n"
      unfolding n_def by (rule find_from_none) (use jlt nosep in \<open>auto simp: n_def\<close>)
    from nosep[of j] jlt have "p ! j \<noteq> CHR ''/''" by simp
    with jlt colon ff show ?thesis
      by (auto simp: increment_def Let_def sep n_def)
  qed
  have "update_current Posix p (Some r) j = drop j p"
  proof -
    from nosep[of j] jlt have pj: "p ! j \<noteq> CHR ''/''" by simp
    have "take (n - j) (drop j p) = drop j p" by (simp add: n_def)
    moreover have "drop j p ! 0 = p ! j" using jlt by (simp add: n_def)
    ultimately show ?thesis
      using pj jlt by (simp add: update_current_def Let_def sep inc n_def)
  qed
  with dec have "it_current (it_prev Posix (path_end Posix p)) = drop j p"
    by (simp add: it_prev_def Let_def path_end_fields r_def n_def)
  with rel show ?thesis by (simp add: get_filename.simps)
qed

lemma get_filename_scenarios:
  "elements Posix ''/usr/local'' = [''/'', ''usr'', ''local'']
   \<and> get_filename Posix ''/usr/local'' = ''local''
   \<and> elements Posix ''/usr/local/'' = [''/'', ''usr'', ''local'', []]
   \<and> get_filename Posix ''/usr/local/'' = []"
  by code_simp

text \<open>
  Claim C8 fails on the code.  \<^verbatim>\<open>get_filename()\<close> is meant to be the last component the
  path iterator produces (its comment says so), and it takes the component one step
  before \<^verbatim>\<open>end()\<close>.  Stepping forward, the iterator splits a first component after a
  colon in second position, in both grammars; stepping backward it looks for the colon
  only in the Windows-style grammar.  On the POSIX-style grammar the path \<^verbatim>\<open>a:b\<close>, which
  has a relative part, is iterated as \<^verbatim>\<open>a:\<close> followed by \<^verbatim>\<open>b\<close>, and its filename is \<^verbatim>\<open>a:\<close>,
  the first component and not the last; likewise \<^verbatim>\<open>1:30.txt\<close> has the filename \<^verbatim>\<open>1:\<close>.
\<close>

theorem get_filename_is_not_last_component:
  "has_relative_path Posix ''a:b''
   \<and> elements Posix ''a:b'' = [''a:'', ''b'']
   \<and> get_filename Posix ''a:b'' = ''a:''
   \<and> has_relative_path Posix ''1:30.txt''
   \<and> elements Posix ''1:30.txt'' = [''1:'', ''30.txt'']
   \<and> get_filename Posix ''1:30.txt'' = ''1:''"
  by code_simp

section \<open>Properties of the operations on the file system\<close>

subsection \<open>Creating a directory that exists\<close>

lemma file_status_type_not_none: "fs_type (file_status_from_st_mode m) \<noteq> none"
  by (simp add: file_status_from_st_mode_def Let_def)

lemma status_lstat_ok:
  "sys_lstat os s p = Inr st \<Longrightarrow> fs_type (fst (status os s p)) \<noteq> none \<and> snd (status os s p) = 0"
  by (auto simp: status_def internal_status_def Let_def file_status_type_not_none split: sum.splits)

text \<open>
  Claim C10, as amended.  When \<^verbatim>\<open>exists()\<close> holds for the path (\<^verbatim>\<open>stat\<close> succeeds: the
  path resolves to an entry, whatever its type), \<^verbatim>\<open>mkdir(prms, ec)\<close> returns false, leaves
  the error code empty and leaves the file system as it was, whatever the \<^verbatim>\<open>mkdir\<close>
  system call would have done: it is not called.  When \<^verbatim>\<open>exists()\<close> does not hold, which
  is the case of a missing path but also of an existing symbolic link whose target is
  missing, the system call is made: \<^verbatim>\<open>mkdir\<close> returns true with an empty code when it
  succeeds, and false with the call's error as the code when it fails.
\<close>

theorem mkdir_existing:
  "(sys_lstat os s p = Inr st \<and> exists os s p
      \<longrightarrow> mkdir (os\<lparr>sys_mkdir := f\<rparr>) s p prms = (False, 0, s))
   \<and> (\<not> exists os s p \<and> sys_mkdir os s p (ucast prms) = Inl e
      \<longrightarrow> mkdir os s p prms = (False, e, s))
   \<and> (\<not> exists os s p \<and> sys_mkdir os s p (ucast prms) = Inr s'
      \<longrightarrow> mkdir os s p prms = (True, 0, s'))"
proof (intro conjI impI)
  assume h: "sys_lstat os s p = Inr st \<and> exists os s p"
  let ?os = "os\<lparr>sys_mkdir := f\<rparr>"
  have "sys_lstat ?os s p = Inr st" using h by simp
  from status_lstat_ok[OF this] have "fs_type (fst (status ?os s p)) \<noteq> none" by simp
  moreover have "exists ?os s p" using h by (simp add: exists_def)
  ultimately show "mkdir ?os s p prms = (False, 0, s)"
    by (cases "status ?os s p") (simp add: mkdir_def)
next
  assume "\<not> exists os s p \<and> sys_mkdir os s p (ucast prms) = Inl e"
  then show "mkdir os s p prms = (False, e, s)"
    by (cases "status os s p") (simp add: mkdir_def)
next
  assume "\<not> exists os s p \<and> sys_mkdir os s p (ucast prms) = Inr s'"
  then show "mkdir os s p prms = (True, 0, s')"
    by (cases "status os s p") (simp add: mkdir_def)
qed

theorem mkdir_existing_witness:
  "mkdir toy_os toy_example ''d/g'' perms_all = (False, 0, toy_example)
   \<and> mkdir toy_os toy_example ''x'' perms_all = (False, EEXIST, toy_example)
   \<and> mkdir toy_os toy_example ''n'' perms_all = (True, 0, toy_example @ [(''n'', TDir, 0x1FF)])"
proof -
  have l: "sys_lstat toy_os toy_example ''d/g'' = Inr (toy_stat_t toy_example ''d/g'' (TFile, 0x1A4))"
    by code_simp
  have e: "exists toy_os toy_example ''d/g''" by code_simp
  have nx: "\<not> exists toy_os toy_example ''x''" by code_simp
  have m: "sys_mkdir toy_os toy_example ''x'' (ucast perms_all) = Inl EEXIST" by code_simp
  have nn: "\<not> exists toy_os toy_example ''n''" by code_simp
  have mn: "sys_mkdir toy_os toy_example ''n'' (ucast perms_all)
              = Inr (toy_example @ [(''n'', TDir, 0x1FF)])"
    by code_simp
  have id: "toy_os\<lparr>sys_mkdir := sys_mkdir toy_os\<rparr> = toy_os" by simp
  show ?thesis
    using mkdir_existing[where os = toy_os and s = toy_example and p = "''d/g''"
            and st = "toy_stat_t toy_example ''d/g'' (TFile, 0x1A4)" and f = "sys_mkdir toy_os"
            and prms = perms_all]
          mkdir_existing[where os = toy_os and s = toy_example and p = "''x''" and prms = perms_all
            and e = EEXIST]
          mkdir_existing[where os = toy_os and s = toy_example and p = "''n''" and prms = perms_all
            and s' = "toy_example @ [(''n'', TDir, 0x1FF)]"]
          l e nx m nn mn id
    by simp
qed

text \<open>
  The claim as stated fails for an entry that exists but does not resolve.  The path
  \<^verbatim>\<open>x\<close> names an existing entry, a symbolic link (\<^verbatim>\<open>lstat\<close> succeeds), whose target is
  missing: \<^verbatim>\<open>mkdir\<close> makes the system call, and returns false with the error of that call
  as the code, not an empty code.
\<close>

theorem mkdir_existing_counterexample:
  "sys_lstat toy_os toy_example ''x'' = Inr (toy_stat_t toy_example ''x'' (TLink ''nowhere'', 0x1FF))
   \<and> fs_type (file_status_from_st_mode
                 (st_mode (toy_stat_t toy_example ''x'' (TLink ''nowhere'', 0x1FF)))) = symlink
   \<and> mkdir toy_os toy_example ''x'' perms_all = (False, EEXIST, toy_example)
   \<and> mkdir toy_os toy_example ''x'' perms_all \<noteq> (False, 0, toy_example)"
  by code_simp

subsection \<open>Permissions\<close>

text \<open>
  Claim C9.  When \<open>opts\<close> has no bit of \<^verbatim>\<open>replace\<close>, \<^verbatim>\<open>add\<close> or \<^verbatim>\<open>remove\<close>,
  \<^verbatim>\<open>permissions\<close> leaves the invalid-parameter error and the file system as it was,
  whatever \<^verbatim>\<open>chmod\<close> would have done.  Otherwise, when \<open>opts\<close> does not contain
  \<^verbatim>\<open>replace\<close> (and not \<^verbatim>\<open>nofollow\<close>), the mask given to \<^verbatim>\<open>chmod\<close> is the permissions of
  \<^verbatim>\<open>symlink_status\<close> united with \<open>prms\<close> when \<open>opts\<close> contains \<^verbatim>\<open>add\<close>, and those
  permissions without the bits of \<open>prms\<close> otherwise.  With \<^verbatim>\<open>replace\<close> the mask is \<open>prms\<close>
  itself, and with \<^verbatim>\<open>nofollow\<close> nothing is changed.
\<close>

theorem permissions_options:
  "(opts AND (po_replace po OR po_add po OR po_remove po) = 0
      \<longrightarrow> permissions po (os\<lparr>sys_chmod := f\<rparr>) s p prms opts = (ERROR_INVALID_PARAMETER, s))
   \<and> (opts AND (po_replace po OR po_add po OR po_remove po) \<noteq> 0
       \<and> opts AND po_replace po \<noteq> po_replace po
       \<and> opts AND po_nofollow po \<noteq> po_nofollow po
      \<longrightarrow> permissions po os s p prms opts =
            (let current = fs_prms (fst (symlink_status os s p));
                 applied = (if opts AND po_add po = po_add po then current OR prms
                            else current AND NOT prms)
             in case sys_chmod os s p (ucast applied) of
                  Inl e \<Rightarrow> (e, s)
                | Inr s' \<Rightarrow> (snd (symlink_status os s p), s')))
   \<and> (opts AND (po_replace po OR po_add po OR po_remove po) \<noteq> 0
       \<and> opts AND po_replace po = po_replace po
       \<and> opts AND po_nofollow po \<noteq> po_nofollow po
      \<longrightarrow> permissions po os s p prms opts =
            (case sys_chmod os s p (ucast prms) of
               Inl e \<Rightarrow> (e, s)
             | Inr s' \<Rightarrow> (snd (symlink_status os s p), s')))
   \<and> (opts AND (po_replace po OR po_add po OR po_remove po) \<noteq> 0
       \<and> opts AND po_nofollow po = po_nofollow po
      \<longrightarrow> permissions po (os\<lparr>sys_chmod := f\<rparr>) s p prms opts = (snd (symlink_status os s p), s))"
  by (auto simp: permissions_def symlink_status_def Let_def split: prod.splits sum.splits)

theorem permissions_options_witness:
  "permissions \<lparr>po_replace = 3, po_add = 1, po_remove = 2, po_nofollow = 4\<rparr>
      toy_os toy_example ''d/g'' 0x49 8 = (ERROR_INVALID_PARAMETER, toy_example)
   \<and> permissions \<lparr>po_replace = 3, po_add = 1, po_remove = 2, po_nofollow = 4\<rparr>
      toy_os toy_example ''d/g'' 0x49 1 =
        (0, [(''d'', TDir, 0x1ED), (''d/g'', TFile, 0x1ED), (''d/l'', TLink ''t'', 0x1FF),
             (''t'', TDir, 0x1ED), (''t/f'', TFile, 0x1A4), (''e'', TDir, 0x1ED),
             (''k'', TLink ''d/g'', 0x1FF), (''x'', TLink ''nowhere'', 0x1FF)])
   \<and> permissions \<lparr>po_replace = 3, po_add = 1, po_remove = 2, po_nofollow = 4\<rparr>
      toy_os toy_example ''d/g'' 0x24 2 =
        (0, [(''d'', TDir, 0x1ED), (''d/g'', TFile, 0x180), (''d/l'', TLink ''t'', 0x1FF),
             (''t'', TDir, 0x1ED), (''t/f'', TFile, 0x1A4), (''e'', TDir, 0x1ED),
             (''k'', TLink ''d/g'', 0x1FF), (''x'', TLink ''nowhere'', 0x1FF)])
   \<and> permissions \<lparr>po_replace = 3, po_add = 1, po_remove = 2, po_nofollow = 4\<rparr>
      toy_os toy_example ''d/g'' 0x100 3 =
        (0, [(''d'', TDir, 0x1ED), (''d/g'', TFile, 0x100), (''d/l'', TLink ''t'', 0x1FF),
             (''t'', TDir, 0x1ED), (''t/f'', TFile, 0x1A4), (''e'', TDir, 0x1ED),
             (''k'', TLink ''d/g'', 0x1FF), (''x'', TLink ''nowhere'', 0x1FF)])
   \<and> permissions \<lparr>po_replace = 3, po_add = 1, po_remove = 2, po_nofollow = 4\<rparr>
      toy_os toy_example ''d/g'' 0x49 5 = (0, toy_example)"
proof -
  let ?po = "\<lparr>po_replace = 3, po_add = 1, po_remove = 2, po_nofollow = 4\<rparr>"
  have c0: "(8 :: perm_options) AND (po_replace ?po OR po_add ?po OR po_remove ?po) = 0"
    by simp
  have c1: "(1 :: perm_options) AND (po_replace ?po OR po_add ?po OR po_remove ?po) \<noteq> 0
       \<and> (1 :: perm_options) AND po_replace ?po \<noteq> po_replace ?po
       \<and> (1 :: perm_options) AND po_nofollow ?po \<noteq> po_nofollow ?po"
    by simp
  have c2: "(2 :: perm_options) AND (po_replace ?po OR po_add ?po OR po_remove ?po) \<noteq> 0
       \<and> (2 :: perm_options) AND po_replace ?po \<noteq> po_replace ?po
       \<and> (2 :: perm_options) AND po_nofollow ?po \<noteq> po_nofollow ?po"
    by simp
  have r1: "(let current = fs_prms (fst (symlink_status toy_os toy_example ''d/g''));
                 applied = (if (1 :: perm_options) AND po_add ?po = po_add ?po then current OR 0x49
                            else current AND NOT 0x49)
             in case sys_chmod toy_os toy_example ''d/g'' (ucast applied) of
                  Inl e \<Rightarrow> (e, toy_example)
                | Inr s' \<Rightarrow> (snd (symlink_status toy_os toy_example ''d/g''), s'))
        = (0, [(''d'', TDir, 0x1ED), (''d/g'', TFile, 0x1ED), (''d/l'', TLink ''t'', 0x1FF),
             (''t'', TDir, 0x1ED), (''t/f'', TFile, 0x1A4), (''e'', TDir, 0x1ED),
             (''k'', TLink ''d/g'', 0x1FF), (''x'', TLink ''nowhere'', 0x1FF)])"
    by code_simp
  have r2: "(let current = fs_prms (fst (symlink_status toy_os toy_example ''d/g''));
                 applied = (if (2 :: perm_options) AND po_add ?po = po_add ?po then current OR 0x24
                            else current AND NOT 0x24)
             in case sys_chmod toy_os toy_example ''d/g'' (ucast applied) of
                  Inl e \<Rightarrow> (e, toy_example)
                | Inr s' \<Rightarrow> (snd (symlink_status toy_os toy_example ''d/g''), s'))
        = (0, [(''d'', TDir, 0x1ED), (''d/g'', TFile, 0x180), (''d/l'', TLink ''t'', 0x1FF),
             (''t'', TDir, 0x1ED), (''t/f'', TFile, 0x1A4), (''e'', TDir, 0x1ED),
             (''k'', TLink ''d/g'', 0x1FF), (''x'', TLink ''nowhere'', 0x1FF)])"
    by code_simp
  have c3: "(3 :: perm_options) AND (po_replace ?po OR po_add ?po OR po_remove ?po) \<noteq> 0
       \<and> (3 :: perm_options) AND po_replace ?po = po_replace ?po
       \<and> (3 :: perm_options) AND po_nofollow ?po \<noteq> po_nofollow ?po"
    by simp
  have c5: "(5 :: perm_options) AND (po_replace ?po OR po_add ?po OR po_remove ?po) \<noteq> 0
       \<and> (5 :: perm_options) AND po_nofollow ?po = po_nofollow ?po"
    by simp
  have r3: "(case sys_chmod toy_os toy_example ''d/g'' (ucast (0x100 :: perms)) of
               Inl e \<Rightarrow> (e, toy_example)
             | Inr s' \<Rightarrow> (snd (symlink_status toy_os toy_example ''d/g''), s'))
        = (0, [(''d'', TDir, 0x1ED), (''d/g'', TFile, 0x100), (''d/l'', TLink ''t'', 0x1FF),
             (''t'', TDir, 0x1ED), (''t/f'', TFile, 0x1A4), (''e'', TDir, 0x1ED),
             (''k'', TLink ''d/g'', 0x1FF), (''x'', TLink ''nowhere'', 0x1FF)])"
    by code_simp
  have r5: "snd (symlink_status toy_os toy_example ''d/g'') = 0" by code_simp
  have id: "toy_os\<lparr>sys_chmod := sys_chmod toy_os\<rparr> = toy_os" by simp
  show ?thesis
    using permissions_options[where po = ?po and os = toy_os and s = toy_example and p = "''d/g''"
            and prms = "0x49" and opts = 8 and f = "sys_chmod toy_os"]
          permissions_options[where po = ?po and os = toy_os and s = toy_example and p = "''d/g''"
            and prms = "0x49" and opts = 1]
          permissions_options[where po = ?po and os = toy_os and s = toy_example and p = "''d/g''"
            and prms = "0x24" and opts = 2]
          permissions_options[where po = ?po and os = toy_os and s = toy_example and p = "''d/g''"
            and prms = "0x100" and opts = 3]
          permissions_options[where po = ?po and os = toy_os and s = toy_example and p = "''d/g''"
            and prms = "0x49" and opts = 5 and f = "sys_chmod toy_os"]
          c0 c1 c2 c3 c5 r1 r2 r3 r5 id
    by (simp only:) simp
qed

subsection \<open>Recursive removal\<close>











text \<open>With the counter, the entries of the tree are the removals that succeeded.\<close>

lemma counting_calls [simp]:
  "sys_lstat (counting os) sc p = sys_lstat os (fst sc) p"
  "sys_stat (counting os) sc p = sys_stat os (fst sc) p"
  "sys_opendir (counting os) sc p = sys_opendir os (fst sc) p"
  by (simp_all add: counting_def)

lemma counting_status [simp]:
  "exists (counting os) sc p = exists os (fst sc) p"
  "status (counting os) sc p = status os (fst sc) p"
  by (simp_all add: exists_def status_def internal_status_def Let_def split: sum.splits)





text \<open>
  Claim C1 fails on the code.  \<^verbatim>\<open>remove_all\<close> takes the child's status from
  \<^verbatim>\<open>status(ec)\<close>, which follows a link: a link to a directory has the type
  \<^verbatim>\<open>directory\<close>, never \<^verbatim>\<open>symlink\<close>, so the guard against links passes and the link is
  descended into.  In the example the directory \<^verbatim>\<open>d\<close> holds the file \<^verbatim>\<open>d/g\<close> and the link
  \<^verbatim>\<open>d/l\<close> to the directory \<^verbatim>\<open>t\<close>: \<^verbatim>\<open>remove_all\<close> of \<^verbatim>\<open>d\<close> also removes the file \<^verbatim>\<open>t/f\<close>
  and returns 4, where removing the link as a leaf would return 3 and keep \<^verbatim>\<open>t/f\<close>.
\<close>

theorem remove_all_descends_into_linked_directory:
  "sys_lstat toy_os toy_example ''d/l'' = Inr (toy_stat_t toy_example ''d/l'' (TLink ''t'', 0x1FF))
   \<and> fs_type (fst (status toy_os toy_example ''d/l'')) = directory
   \<and> remove_all 10 toy_os toy_example ''d'' =
       Some (4, 0, [(''t'', TDir, 0x1ED), (''e'', TDir, 0x1ED),
                    (''k'', TLink ''d/g'', 0x1FF), (''x'', TLink ''nowhere'', 0x1FF)])"
  by code_simp

subsection \<open>Reading a link\<close>

lemma static_cast_int_small: "n < 2 ^ 31 \<Longrightarrow> static_cast_int n = int n"
  by (simp add: static_cast_int_def Let_def)

lemma readlink_loop_returns:
  assumes "sys_readlink os s p = Inr target" and "length target < 2 ^ 30"
  shows "0 < bs \<Longrightarrow> bs < 2 ^ 31 \<Longrightarrow> readlink_loop os s p bs ec = Some (target, ec)"
proof (induction "2 ^ 31 - bs" arbitrary: bs rule: less_induct)
  case less
  show ?case
  proof (cases "length target < bs")
    case True
    with less.prems assms(1) show ?thesis
      by (subst readlink_loop.simps) (simp add: static_cast_int_small Let_def)
  next
    case False
    with assms(2) have small: "bs * 2 < 2 ^ 31" by simp
    then have md: "(bs * 2) mod 2 ^ 64 = bs * 2" by simp
    have "readlink_loop os s p (bs * 2) ec = Some (target, ec)"
      using less.prems small by (intro less.hyps) simp_all
    with False less.prems assms(1) md show ?thesis
      by (subst readlink_loop.simps) (simp add: static_cast_int_small Let_def)
  qed
qed

lemma get_file_type_symlink_ec:
  "fst (get_file_type os s p) = symlink \<Longrightarrow> snd (get_file_type os s p) = 0"
  by (auto simp: get_file_type_def status_def internal_status_def Let_def
           split: sum.splits prod.splits if_splits)

text \<open>
  When the resolved type of the path, the type \<^verbatim>\<open>get_file_type(ec)\<close> gives, is not
  \<^verbatim>\<open>symlink\<close>, \<^verbatim>\<open>read_symlink(ec)\<close> returns the empty path with the invalid-parameter
  error.  When it is \<^verbatim>\<open>symlink\<close>, a failure of \<^verbatim>\<open>readlink\<close> gives the empty path with the
  error of that call, and a stored text of fewer than \<open>2 ^ 30\<close> bytes is returned whole
  with an empty code.
\<close>

lemma read_symlink_by_resolved_type:
  "(fst (get_file_type os s p) \<noteq> symlink
      \<longrightarrow> read_symlink os s p = Some ([], ERROR_INVALID_PARAMETER))
   \<and> (fst (get_file_type os s p) = symlink \<and> sys_readlink os s p = Inl e
      \<longrightarrow> read_symlink os s p = Some ([], e))
   \<and> (fst (get_file_type os s p) = symlink \<and> sys_readlink os s p = Inr target
       \<and> length target < 2 ^ 30
      \<longrightarrow> read_symlink os s p = Some (target, 0))"
proof (intro conjI impI)
  assume "fst (get_file_type os s p) \<noteq> symlink"
  then show "read_symlink os s p = Some ([], ERROR_INVALID_PARAMETER)"
    by (cases "get_file_type os s p") (simp add: read_symlink_def)
next
  assume h: "fst (get_file_type os s p) = symlink \<and> sys_readlink os s p = Inl e"
  then have "readlink_loop os s p 256 (snd (get_file_type os s p)) = Some ([], e)"
    by (subst readlink_loop.simps) simp
  with h show "read_symlink os s p = Some ([], e)"
    by (cases "get_file_type os s p") (simp add: read_symlink_def)
next
  assume h: "fst (get_file_type os s p) = symlink \<and> sys_readlink os s p = Inr target
       \<and> length target < 2 ^ 30"
  then have "readlink_loop os s p 256 (snd (get_file_type os s p)) = Some (target, snd (get_file_type os s p))"
    by (intro readlink_loop_returns) simp_all
  with h get_file_type_symlink_ec[of os s p] show "read_symlink os s p = Some (target, 0)"
    by (cases "get_file_type os s p") (simp add: read_symlink_def)
qed

text \<open>
  Claim C4 fails on the code.  \<^verbatim>\<open>read_symlink(ec)\<close> tests the type that
  \<^verbatim>\<open>get_file_type(ec)\<close> gives, which is that of \<^verbatim>\<open>status(ec)\<close> and follows a link: for a
  symbolic link whose target exists it is the type of the target, not \<^verbatim>\<open>symlink\<close>.  So
  for every entry that \<^verbatim>\<open>lstat\<close> reports as a symbolic link and that \<^verbatim>\<open>stat\<close> resolves,
  \<^verbatim>\<open>read_symlink(ec)\<close> returns the empty path with the invalid-parameter error, whatever
  \<^verbatim>\<open>readlink\<close> would have given: it is not called.  The claim says that for a symlink
  entry the stored target text is returned.  In the example \<^verbatim>\<open>k\<close> is a link to the
  existing file \<^verbatim>\<open>d/g\<close>, and \<^verbatim>\<open>readlink\<close> would give \<^verbatim>\<open>d/g\<close>.
\<close>

theorem read_symlink_refuses_resolved_link:
  "sys_lstat os s p = Inr st \<and> fs_type (file_status_from_st_mode (st_mode st)) = symlink
   \<and> sys_stat os s p = Inr st' \<and> fs_type (file_status_from_st_mode (st_mode st')) \<noteq> symlink
   \<longrightarrow> read_symlink (os\<lparr>sys_readlink := f\<rparr>) s p = Some ([], ERROR_INVALID_PARAMETER)"
  by (auto simp: read_symlink_def get_file_type_def status_def internal_status_def Let_def)

theorem read_symlink_refuses_resolved_link_witness:
  "sys_readlink toy_os toy_example ''k'' = Inr ''d/g''
   \<and> read_symlink toy_os toy_example ''k'' = Some ([], ERROR_INVALID_PARAMETER)"
proof -
  have h: "sys_lstat toy_os toy_example ''k''
             = Inr (toy_stat_t toy_example ''k'' (TLink ''d/g'', 0x1FF))
     \<and> fs_type (file_status_from_st_mode
                   (st_mode (toy_stat_t toy_example ''k'' (TLink ''d/g'', 0x1FF)))) = symlink
     \<and> sys_stat toy_os toy_example ''k''
         = Inr (toy_stat_t toy_example ''d/g'' (TFile, 0x1A4))
     \<and> fs_type (file_status_from_st_mode
                   (st_mode (toy_stat_t toy_example ''d/g'' (TFile, 0x1A4)))) \<noteq> symlink"
    by code_simp
  have r: "sys_readlink toy_os toy_example ''k'' = Inr ''d/g''" by code_simp
  have id: "toy_os\<lparr>sys_readlink := sys_readlink toy_os\<rparr> = toy_os" by simp
  from read_symlink_refuses_resolved_link[where os = toy_os and s = toy_example
         and p = "''k''" and st = "toy_stat_t toy_example ''k'' (TLink ''d/g'', 0x1FF)"
         and st' = "toy_stat_t toy_example ''d/g'' (TFile, 0x1A4)"
         and f = "sys_readlink toy_os"] h
  have "read_symlink (toy_os\<lparr>sys_readlink := sys_readlink toy_os\<rparr>) toy_example ''k''
          = Some ([], ERROR_INVALID_PARAMETER)"
    by blast
  with r id show ?thesis by simp
qed

subsection \<open>Equivalence\<close>

text \<open>
  Claim C3, as amended.  In the error-code form of \<^verbatim>\<open>equivalent(a, b)\<close>: when both
  paths cannot be identified the result is false and the code is the first error (the
  second when the first is zero); when exactly one cannot be identified the result is
  false and the code is empty; when both are identified the code is empty and the result
  compares device, inode, size and modification time (POSIX-style grammar), or, on the
  Windows-style grammar, last write time, file index, size and volume serial number,
  unless reading the information of either handle fails, which gives false with that
  error.
\<close>

theorem equivalent_outcomes:
  "(sys_stat os s a = Inl ea \<and> sys_stat os s b = Inl eb
      \<longrightarrow> equivalent os s a b = (False, if ea \<noteq> 0 then ea else eb))
   \<and> (sys_stat os s a = Inl ea \<and> sys_stat os s b = Inr stb
      \<longrightarrow> equivalent os s a b = (False, 0))
   \<and> (sys_stat os s a = Inr sta \<and> sys_stat os s b = Inl eb
      \<longrightarrow> equivalent os s a b = (False, 0))
   \<and> (sys_stat os s a = Inr sta \<and> sys_stat os s b = Inr stb
      \<longrightarrow> equivalent os s a b =
            (st_dev sta = st_dev stb \<and> st_ino sta = st_ino stb \<and>
             st_size sta = st_size stb \<and> st_mtime sta = st_mtime stb, 0))
   \<and> (win_CreateFileW w t a = Inl ea \<and> win_CreateFileW w t b = Inl eb
      \<longrightarrow> equivalent_windows w t a b = (False, if ea \<noteq> 0 then ea else eb))
   \<and> (win_CreateFileW w t a = Inl ea \<and> win_CreateFileW w t b = Inr hb
      \<longrightarrow> equivalent_windows w t a b = (False, 0))
   \<and> (win_CreateFileW w t a = Inr ha \<and> win_CreateFileW w t b = Inl eb
      \<longrightarrow> equivalent_windows w t a b = (False, 0))
   \<and> (win_CreateFileW w t a = Inr ha \<and> win_CreateFileW w t b = Inr hb
       \<and> win_GetFileInformationByHandle w t ha = Inl e
      \<longrightarrow> equivalent_windows w t a b = (False, e))
   \<and> (win_CreateFileW w t a = Inr ha \<and> win_CreateFileW w t b = Inr hb
       \<and> win_GetFileInformationByHandle w t ha = Inr infa
       \<and> win_GetFileInformationByHandle w t hb = Inl e
      \<longrightarrow> equivalent_windows w t a b = (False, e))
   \<and> (win_CreateFileW w t a = Inr ha \<and> win_CreateFileW w t b = Inr hb
       \<and> win_GetFileInformationByHandle w t ha = Inr infa
       \<and> win_GetFileInformationByHandle w t hb = Inr infb
      \<longrightarrow> equivalent_windows w t a b =
            (ftLastWriteTime_dwLowDateTime infa = ftLastWriteTime_dwLowDateTime infb \<and>
             ftLastWriteTime_dwHighDateTime infa = ftLastWriteTime_dwHighDateTime infb \<and>
             nFileIndexHigh infa = nFileIndexHigh infb \<and>
             nFileIndexLow infa = nFileIndexLow infb \<and>
             nFileSizeHigh infa = nFileSizeHigh infb \<and>
             nFileSizeLow infa = nFileSizeLow infb \<and>
             dwVolumeSerialNumber infa = dwVolumeSerialNumber infb, 0))"
  by (simp add: equivalent_def equivalent_windows_def)

theorem equivalent_outcomes_witness:
  "equivalent toy_os toy_example ''zy'' ''zz'' = (False, ENOENT)
   \<and> equivalent toy_os toy_example ''zy'' ''d'' = (False, 0)
   \<and> equivalent toy_os toy_example ''d'' ''zz'' = (False, 0)
   \<and> equivalent toy_os toy_example ''k'' ''d/g'' = (True, 0)
   \<and> equivalent_windows toy_win [''a''] ''y'' ''z'' = (False, 2)
   \<and> equivalent_windows toy_win [''a''] ''a'' ''z'' = (False, 0)
   \<and> equivalent_windows toy_win [''a''] ''z'' ''a'' = (False, 0)
   \<and> equivalent_windows toy_win [''a''] ''a'' ''a'' = (True, 0)"
proof -
  let ?dg = "toy_stat_t toy_example ''d/g'' (TFile, 0x1A4)"
  let ?d = "toy_stat_t toy_example ''d'' (TDir, 0x1ED)"
  let ?inf = "\<lparr>dwVolumeSerialNumber = 1, ftLastWriteTime_dwLowDateTime = 0,
              ftLastWriteTime_dwHighDateTime = 0, nFileSizeHigh = 0, nFileSizeLow = 0,
              nFileIndexHigh = 0, nFileIndexLow = 1\<rparr>"
  have zy: "sys_stat toy_os toy_example ''zy'' = Inl ENOENT" by code_simp
  have zz: "sys_stat toy_os toy_example ''zz'' = Inl ENOENT" by code_simp
  have d: "sys_stat toy_os toy_example ''d'' = Inr ?d" by code_simp
  have k: "sys_stat toy_os toy_example ''k'' = Inr ?dg" by code_simp
  have dg: "sys_stat toy_os toy_example ''d/g'' = Inr ?dg" by code_simp
  have nz: "ENOENT \<noteq> 0" by (simp add: ENOENT_def)
  have wa: "win_CreateFileW toy_win [''a''] ''a'' = Inr ''a''" by (simp add: toy_win_def)
  have wy: "win_CreateFileW toy_win [''a''] ''y'' = Inl 2" by (simp add: toy_win_def)
  have wz: "win_CreateFileW toy_win [''a''] ''z'' = Inl 2" by (simp add: toy_win_def)
  have wi: "win_GetFileInformationByHandle toy_win [''a''] ''a'' = Inr ?inf"
    by (simp add: toy_win_def)
  show ?thesis
    using equivalent_outcomes[where os = toy_os and s = toy_example and a = "''zy''" and b = "''zz''"
            and ea = ENOENT and eb = ENOENT and w = toy_win and t = "[''a'']"]
          equivalent_outcomes[where os = toy_os and s = toy_example and a = "''zy''" and b = "''d''"
            and ea = ENOENT and stb = ?d and w = toy_win and t = "[''a'']"]
          equivalent_outcomes[where os = toy_os and s = toy_example and a = "''d''" and b = "''zz''"
            and sta = ?d and eb = ENOENT and w = toy_win and t = "[''a'']"]
          equivalent_outcomes[where os = toy_os and s = toy_example and a = "''k''" and b = "''d/g''"
            and sta = ?dg and stb = ?dg and w = toy_win and t = "[''a'']"]
          equivalent_outcomes[where w = toy_win and t = "[''a'']" and a = "''y''" and b = "''z''"
            and ea = 2 and eb = 2 and os = toy_os and s = toy_example]
          equivalent_outcomes[where w = toy_win and t = "[''a'']" and a = "''a''" and b = "''z''"
            and ha = "''a''" and eb = 2 and os = toy_os and s = toy_example]
          equivalent_outcomes[where w = toy_win and t = "[''a'']" and a = "''z''" and b = "''a''"
            and ea = 2 and hb = "''a''" and os = toy_os and s = toy_example]
          equivalent_outcomes[where w = toy_win and t = "[''a'']" and a = "''a''" and b = "''a''"
            and ha = "''a''" and hb = "''a''" and infa = ?inf and infb = ?inf
            and os = toy_os and s = toy_example]
          zy zz d k dg nz wa wy wz wi
    by simp
qed

text \<open>
  The claim as stated fails: with \<^verbatim>\<open>d\<close> existing and \<^verbatim>\<open>zz\<close> missing the call reports no
  error, and with both \<^verbatim>\<open>zy\<close> and \<^verbatim>\<open>zz\<close> missing it reports the error.
\<close>

theorem equivalent_outcomes_counterexample:
  "sys_stat toy_os toy_example ''d'' = Inr (toy_stat_t toy_example ''d'' (TDir, 0x1ED))
   \<and> sys_stat toy_os toy_example ''zz'' = Inl ENOENT
   \<and> equivalent toy_os toy_example ''d'' ''zz'' = (False, 0)
   \<and> sys_stat toy_os toy_example ''zy'' = Inl ENOENT
   \<and> equivalent toy_os toy_example ''zy'' ''zz'' = (False, ENOENT)
   \<and> ENOENT \<noteq> 0"
  by code_simp

subsection \<open>The throwing form of mkdirs\<close>

text \<open>
  Claim C5 fails on the code for \<^verbatim>\<open>mkdirs()\<close>.  The path \<^verbatim>\<open>x\<close> is a link whose target
  does not exist: \<^verbatim>\<open>mkdirs(ec)\<close> returns false and sets the code, and the throwing form
  returns false without raising.
\<close>

theorem mkdirs_throwing_does_not_raise:
  "mkdirs toy_os toy_example ''x'' = (False, EEXIST, toy_example)
   \<and> EEXIST \<noteq> 0
   \<and> mkdirs_throwing toy_os toy_example ''x'' = Inr (False, toy_example)"
  by code_simp

section \<open>Further properties\<close>

subsection \<open>The throwing forms\<close>

text \<open>
  The throwing forms of \<^verbatim>\<open>file_size\<close>, \<^verbatim>\<open>last_write_time\<close>, \<^verbatim>\<open>mkdir\<close>, \<^verbatim>\<open>remove\<close> and
  \<^verbatim>\<open>remove_all\<close> raise exactly when their error-code form leaves a code.
\<close>

theorem throwing_forms_follow_error_code:
  "isl (file_size_throwing os s p) = (snd (file_size os s p) \<noteq> 0)
   \<and> isl (last_write_time_throwing os s p) = (snd (last_write_time os s p) \<noteq> 0)
   \<and> isl (mkdir_throwing os s p prms) = (fst (snd (mkdir os s p prms)) \<noteq> 0)
   \<and> isl (remove_throwing os s p) = (fst (snd (remove os s p)) \<noteq> 0)
   \<and> map_option isl (remove_all_throwing n os s p) =
       map_option (\<lambda>r. fst (snd r) \<noteq> 0) (remove_all n os s p)"
  by (auto simp: file_size_throwing_def last_write_time_throwing_def mkdir_throwing_def
        remove_throwing_def remove_all_throwing_def split: prod.splits option.splits)

text \<open>
  The throwing form of \<^verbatim>\<open>mkdirs\<close> never raises: it returns the result of
  \<^verbatim>\<open>mkdirs(ec)\<close> whatever code that call leaves.
\<close>

theorem mkdirs_throwing_never_raises:
  "\<not> isl (mkdirs_throwing os s p)
   \<and> mkdirs_throwing os s p = Inr (fst (mkdirs os s p), snd (snd (mkdirs os s p)))"
  by (simp add: mkdirs_throwing_def split: prod.splits)

subsection \<open>Status of a link\<close>

text \<open>
  \<^verbatim>\<open>status(ec)\<close> of a symbolic link is the status of its target when the target can be
  resolved, and has the type \<^verbatim>\<open>symlink\<close>, with an empty code, when it cannot.
\<close>

theorem status_follows_links:
  "(sys_lstat os s p = Inr st \<and> fs_type (file_status_from_st_mode (st_mode st)) = symlink
      \<and> sys_stat os s p = Inr st'
      \<longrightarrow> status os s p = (file_status_from_st_mode (st_mode st'), 0))
   \<and> (sys_lstat os s p = Inr st \<and> fs_type (file_status_from_st_mode (st_mode st)) = symlink
      \<and> sys_stat os s p = Inl e
      \<longrightarrow> status os s p = (file_status_from_st_mode (st_mode st), 0))"
  by (simp add: status_def internal_status_def Let_def)

theorem status_follows_links_witness:
  "fs_type (fst (status toy_os toy_example ''d/l'')) = directory
   \<and> fs_type (fst (status toy_os toy_example ''x'')) = symlink"
proof -
  let ?l = "toy_stat_t toy_example ''d/l'' (TLink ''t'', 0x1FF)"
  let ?t = "toy_stat_t toy_example ''t'' (TDir, 0x1ED)"
  let ?x = "toy_stat_t toy_example ''x'' (TLink ''nowhere'', 0x1FF)"
  have a: "sys_lstat toy_os toy_example ''d/l'' = Inr ?l
      \<and> fs_type (file_status_from_st_mode (st_mode ?l)) = symlink
      \<and> sys_stat toy_os toy_example ''d/l'' = Inr ?t"
    by code_simp
  have b: "sys_lstat toy_os toy_example ''x'' = Inr ?x
      \<and> fs_type (file_status_from_st_mode (st_mode ?x)) = symlink
      \<and> sys_stat toy_os toy_example ''x'' = Inl ENOENT"
    by code_simp
  have c: "fs_type (file_status_from_st_mode (st_mode ?t)) = directory" by code_simp
  from status_follows_links[where os = toy_os and s = toy_example and p = "''d/l''"
         and st = ?l and st' = ?t] a
  have "status toy_os toy_example ''d/l'' = (file_status_from_st_mode (st_mode ?t), 0)"
    by blast
  moreover
  from status_follows_links[where os = toy_os and s = toy_example and p = "''x''"
         and st = ?x and e = ENOENT] b
  have "status toy_os toy_example ''x'' = (file_status_from_st_mode (st_mode ?x), 0)"
    by blast
  ultimately show ?thesis using b c by simp
qed

subsection \<open>Equivalence is symmetric\<close>

text \<open>
  The result of \<^verbatim>\<open>equivalent(a, b, ec)\<close> is that of \<^verbatim>\<open>equivalent(b, a, ec)\<close>, and a path
  that can be identified is equivalent to itself.
\<close>

theorem equivalent_symmetric:
  "fst (equivalent os s a b) = fst (equivalent os s b a)
   \<and> (case sys_stat os s a of Inl e \<Rightarrow> True | Inr st \<Rightarrow> equivalent os s a a = (True, 0))"
  by (auto simp: equivalent_def split: sum.splits)

end
